theory Spec2Isabelle
  imports Main "HOL-Library.Char_ord" "HOL-Library.List_Lexorder"
begin

section \<open>Text and dictionaries\<close>

text \<open>
  The script \<^verbatim>\<open>scripts/update_srvp.py\<close> reads and writes all of its files as UTF-8.
  A text is modelled as the list of its UTF-8 bytes (\<^typ>\<open>string\<close>), so every ASCII
  character is one \<^typ>\<open>char\<close>, every other character is a sequence of two to four
  bytes, and the four non-ASCII glyphs that the report contains are the byte sequences
  below. The order on \<^typ>\<open>string\<close> is the lexicographic order on bytes, which is
  the order of Python's \<^verbatim>\<open>sorted\<close> on \<^verbatim>\<open>str\<close> (UTF-8 preserves the order of the
  code points).
\<close>

definition nl :: string where
  "nl = [CHR 0x0A]"

definition check_mark :: string where
  "check_mark = [CHR 0xE2, CHR 0x9C, CHR 0x85]"

definition cross_mark :: string where
  "cross_mark = [CHR 0xE2, CHR 0x9D, CHR 0x8C]"

definition minus_mark :: string where
  "minus_mark = [CHR 0xE2, CHR 0x9E, CHR 0x96]"

definition em_dash :: string where
  "em_dash = [CHR 0xE2, CHR 0x80, CHR 0x94]"

definition backtick :: string where
  "backtick = [CHR 0x60]"

definition triple_quote :: string where
  "triple_quote = [CHR 0x22, CHR 0x22, CHR 0x22]"

text \<open>\<^verbatim>\<open>sep.join(lines)\<close>\<close>

fun join :: "string \<Rightarrow> string list \<Rightarrow> string" where
  "join sep [] = []"
| "join sep [x] = x"
| "join sep (x # y # ys) = x @ sep @ join sep (y # ys)"

text \<open>\<^verbatim>\<open>str(n)\<close> of a Python integer, as an f-string interpolates it.\<close>

function str_nat :: "nat \<Rightarrow> string" where
  "str_nat n =
     (if n < 10 then [char_of (48 + n)]
      else str_nat (n div 10) @ [char_of (48 + n mod 10)])"
  by pat_completeness auto
termination
  by (relation "measure (\<lambda>n. n)") auto

declare str_nat.simps [simp del]

definition py_str :: "int \<Rightarrow> string" where
  "py_str i = (if i < 0 then CHR ''-'' # str_nat (nat (- i)) else str_nat (nat i))"

text \<open>\<^verbatim>\<open>s.endswith(suffix)\<close>\<close>

definition endswith :: "string \<Rightarrow> string \<Rightarrow> bool" where
  "endswith s suffix =
     (length suffix \<le> length s \<and> drop (length s - length suffix) s = suffix)"

text \<open>
  The characters of a text. The first byte of a character tells how many bytes it has
  (\<open>0\<close> for a byte that cannot begin a character); a character that is not ASCII is
  its first byte followed by one to three continuation bytes.
\<close>

definition utf8_length :: "char \<Rightarrow> nat" where
  "utf8_length c =
     (if c < CHR 0x80 then 1
      else if CHR 0xC2 \<le> c \<and> c \<le> CHR 0xDF then 2
      else if CHR 0xE0 \<le> c \<and> c \<le> CHR 0xEF then 3
      else if CHR 0xF0 \<le> c \<and> c \<le> CHR 0xF4 then 4
      else 0)"

definition utf8_tail :: "char \<Rightarrow> bool" where
  "utf8_tail c = (CHR 0x80 \<le> c \<and> c \<le> CHR 0xBF)"

definition multibyte :: "string \<Rightarrow> bool" where
  "multibyte w =
     (case w of
        [] \<Rightarrow> False
      | c # cs \<Rightarrow> 2 \<le> utf8_length c \<and> length w = utf8_length c \<and> list_all utf8_tail cs)"

fun utf8_chars :: "string \<Rightarrow> string list" where
  "utf8_chars [] = []"
| "utf8_chars (c # cs) =
     (c # take (utf8_length c - 1) cs) # utf8_chars (drop (utf8_length c - 1) cs)"

text \<open>
  Python classifies characters by the Unicode database of the interpreter, which is not
  part of the repository. For the ASCII characters the classes are fixed and written
  out below; for the other characters they are parameters of the model, as predicates
  on the UTF-8 encoding of one character: the decimal digits (\<^verbatim>\<open>\d\<close>), the word
  characters (\<^verbatim>\<open>\w\<close>) and the whitespace (\<^verbatim>\<open>\s\<close>, \<^verbatim>\<open>str.strip()\<close>).
\<close>

record unicode_db =
  uni_decimal :: "string \<Rightarrow> bool"
  uni_word :: "string \<Rightarrow> bool"
  uni_space :: "string \<Rightarrow> bool"

text \<open>
  Whitespace, for \<^verbatim>\<open>str.strip()\<close> and for the class \<^verbatim>\<open>\s\<close>: the ASCII characters
  for which \<^verbatim>\<open>str.isspace()\<close> holds (tab to carriage return, the four separators
  0x1C to 0x1F, and the space), and the non-ASCII characters that the database names.
\<close>

definition is_space :: "char \<Rightarrow> bool" where
  "is_space c =
     ((CHR 0x09 \<le> c \<and> c \<le> CHR 0x0D) \<or> (CHR 0x1C \<le> c \<and> c \<le> CHR 0x1F) \<or> c = CHR 0x20)"

definition white :: "unicode_db \<Rightarrow> string \<Rightarrow> bool" where
  "white U ch =
     (case ch of
        [] \<Rightarrow> False
      | c # cs \<Rightarrow> if c < CHR 0x80 then is_space c else multibyte ch \<and> uni_space U ch)"

definition strip :: "unicode_db \<Rightarrow> string \<Rightarrow> string" where
  "strip U s = concat (rev (dropWhile (white U) (rev (dropWhile (white U) (utf8_chars s)))))"

text \<open>
  Truth value of an \<^verbatim>\<open>Optional[str]\<close>, and Python's \<^verbatim>\<open>a or b\<close> on such values:
  \<^verbatim>\<open>None\<close> and the empty string are false.
\<close>

fun truthy :: "string option \<Rightarrow> bool" where
  "truthy None = False"
| "truthy (Some s) = (s \<noteq> [])"

definition py_or :: "string option \<Rightarrow> string option \<Rightarrow> string option" where
  "py_or a b = (if truthy a then a else b)"

text \<open>
  A Python \<^verbatim>\<open>dict\<close> is an association list in insertion order. Its keys are
  distinct (\<open>is_dict\<close>); assigning to a key that is present keeps its position.
\<close>

type_synonym ('k, 'v) pydict = "('k \<times> 'v) list"

definition is_dict :: "('k, 'v) pydict \<Rightarrow> bool" where
  "is_dict d = distinct (map fst d)"

definition dict_get :: "('k, 'v) pydict \<Rightarrow> 'k \<Rightarrow> 'v \<Rightarrow> 'v" where
  "dict_get d k dflt = (case map_of d k of None \<Rightarrow> dflt | Some v \<Rightarrow> v)"

fun dict_set :: "('k, 'v) pydict \<Rightarrow> 'k \<Rightarrow> 'v \<Rightarrow> ('k, 'v) pydict" where
  "dict_set [] k v = [(k, v)]"
| "dict_set ((k', v') # d) k v =
     (if k' = k then (k, v) # d else (k', v') # dict_set d k v)"

section \<open>Errors and files\<close>

datatype error =
    FileNotFoundError
  | OSError
  | JSONDecodeError
  | CalledProcessError
  | UnicodeEncodeError

datatype file_state =
    Missing
  | Unreadable
  | Content string

text \<open>\<^verbatim>\<open>path.exists()\<close> and \<^verbatim>\<open>path.read_text(encoding="utf-8")\<close>\<close>

fun path_exists :: "file_state \<Rightarrow> bool" where
  "path_exists Missing = False"
| "path_exists Unreadable = True"
| "path_exists (Content t) = True"

fun read_text :: "file_state \<Rightarrow> error + string" where
  "read_text Missing = Inl FileNotFoundError"
| "read_text Unreadable = Inl OSError"
| "read_text (Content t) = Inr t"

text \<open>
  The outcome of \<^verbatim>\<open>subprocess.check_output(["git", ...])\<close>: the command fails (it
  exits with a non-zero status or cannot be started) or prints its output.
\<close>

datatype cmd_result =
    CmdFailed
  | CmdOutput string

section \<open>Outcome store: \<^verbatim>\<open>parse_test_report\<close>\<close>

text \<open>
  The test-result feed \<^verbatim>\<open>report.json\<close> at the moment it is read: absent, not
  decodable into the expected structure, or a JSON object whose optional member
  \<^verbatim>\<open>tests\<close> lists records with a \<^verbatim>\<open>nodeid\<close> and an \<^verbatim>\<open>outcome\<close>.
\<close>

datatype feed =
    FeedMissing
  | FeedInvalid
  | Feed "(string \<times> string) list option"

fun parse_test_report :: "feed \<Rightarrow> error + (string, string) pydict" where
  "parse_test_report FeedMissing = Inl FileNotFoundError"
| "parse_test_report FeedInvalid = Inl JSONDecodeError"
| "parse_test_report (Feed tests) =
     Inr (fold (\<lambda>(nodeid, outcome) test_outcomes. dict_set test_outcomes nodeid outcome)
               (case tests of None \<Rightarrow> [] | Some ts \<Rightarrow> ts) [])"

section \<open>Regular expressions as Python's \<^verbatim>\<open>re\<close> matches them\<close>

text \<open>
  The fragment of \<^verbatim>\<open>re\<close> syntax that the script uses: character classes, literal
  strings, concatenation, the greedy \<^verbatim>\<open>*\<close> and the lazy \<^verbatim>\<open>*?\<close>, capture groups
  and the anchors \<^verbatim>\<open>^\<close> and \<^verbatim>\<open>$\<close> under \<^verbatim>\<open>re.MULTILINE\<close>. \<open>Cls P\<close> is a class
  that is decided byte by byte (a set of ASCII characters or its complement);
  \<open>UCls P Q\<close> is a class of characters, \<open>P\<close> for the ASCII ones and \<open>Q\<close> for the
  encodings of the others.
\<close>

datatype re =
    Cls "char \<Rightarrow> bool"
  | Str string
  | Seq re re
  | Star re
  | LazyStar re
  | Group nat re
  | Bol
  | Eol
  | UCls "char \<Rightarrow> bool" "string \<Rightarrow> bool"

text \<open>
  A matching state: the character before the cursor (for \<^verbatim>\<open>^\<close>), the text from the
  cursor on, and the groups captured so far (latest first).
\<close>

type_synonym groups = "(nat \<times> string) list"
type_synonym mstate = "char option \<times> string \<times> groups"

fun rest_of :: "mstate \<Rightarrow> string" where
  "rest_of (p, s, g) = s"

fun groups_of :: "mstate \<Rightarrow> groups" where
  "groups_of (p, s, g) = g"

definition last_char :: "char option \<Rightarrow> string \<Rightarrow> char option" where
  "last_char p w = (if w = [] then p else Some (last w))"

text \<open>
  \<open>rmatch r st\<close> lists the states in which a match of \<open>r\<close> begun at \<open>st\<close> can end,
  in the order in which the backtracking matcher tries them: a greedy star first tries
  one more iteration, a lazy star first tries to stop. The match that \<^verbatim>\<open>re\<close> reports
  is the head of the list. An iteration of a star that consumes nothing is not repeated.
\<close>

function (sequential) rmatch :: "re \<Rightarrow> mstate \<Rightarrow> mstate list" where
  "rmatch (Cls P) (p, s, g) =
     (case s of [] \<Rightarrow> [] | c # s' \<Rightarrow> if P c then [(Some c, s', g)] else [])"
| "rmatch (Str w) (p, s, g) =
     (if take (length w) s = w then [(last_char p w, drop (length w) s, g)] else [])"
| "rmatch (Seq a b) st = concat (map (rmatch b) (rmatch a st))"
| "rmatch (Star a) st =
     concat (map (\<lambda>st'. if length (rest_of st') < length (rest_of st)
                         then rmatch (Star a) st' else [])
                 (rmatch a st)) @ [st]"
| "rmatch (LazyStar a) st =
     st # concat (map (\<lambda>st'. if length (rest_of st') < length (rest_of st)
                              then rmatch (LazyStar a) st' else [])
                      (rmatch a st))"
| "rmatch (Group n a) (p, s, g) =
     map (\<lambda>(p', s', g'). (p', s', (n, take (length s - length s') s) # g'))
         (rmatch a (p, s, g))"
| "rmatch Bol (p, s, g) = (if p = None \<or> p = Some (CHR 0x0A) then [(p, s, g)] else [])"
| "rmatch Eol (p, s, g) = (if s = [] \<or> hd s = CHR 0x0A then [(p, s, g)] else [])"
| "rmatch (UCls P Q) (p, s, g) =
     (case s of
        [] \<Rightarrow> []
      | c # s' \<Rightarrow>
          if c < CHR 0x80 then (if P c then [(Some c, s', g)] else [])
          else (let w = take (utf8_length c) s
                in if multibyte w \<and> Q w
                   then [(Some (last w), drop (utf8_length c) s, g)] else []))"
  by pat_completeness auto
termination
  by (relation "measures [\<lambda>(r, st). size r, \<lambda>(r, st). length (rest_of st)]") auto

declare rmatch.simps [simp del]

text \<open>\<^verbatim>\<open>r+\<close> and \<^verbatim>\<open>r{3}\<close>\<close>

definition Plus :: "re \<Rightarrow> re" where
  "Plus r = Seq r (Star r)"

definition Rep3 :: "re \<Rightarrow> re" where
  "Rep3 r = Seq r (Seq r r)"

text \<open>\<^verbatim>\<open>m.group(n)\<close>\<close>

definition group :: "groups \<Rightarrow> nat \<Rightarrow> string" where
  "group g n = (case map_of g n of None \<Rightarrow> [] | Some w \<Rightarrow> w)"

text \<open>
  \<^verbatim>\<open>re.finditer\<close>: scan from left to right; where the pattern matches, report the
  matched text with its groups and go on behind the match, otherwise move on. The scan
  moves on byte by byte; each pattern of the script begins with an ASCII character, so
  no match begins inside a character. None of the patterns of the script matches the
  empty string; an empty match is reported and the scan moves on.
\<close>

function re_finditer :: "re \<Rightarrow> char option \<Rightarrow> string \<Rightarrow> (string \<times> groups) list" where
  "re_finditer r p s =
     (case rmatch r (p, s, []) of
        [] \<Rightarrow> (case s of [] \<Rightarrow> [] | c # cs \<Rightarrow> re_finditer r (Some c) cs)
      | st # _ \<Rightarrow>
          (if length (rest_of st) < length s
           then (take (length s - length (rest_of st)) s, groups_of st)
                  # re_finditer r (last_char p (take (length s - length (rest_of st)) s)) (rest_of st)
           else ([], groups_of st)
                  # (case s of [] \<Rightarrow> [] | c # cs \<Rightarrow> re_finditer r (Some c) cs)))"
  by pat_completeness auto
termination
  by (relation "measure (\<lambda>(r, p, s). length s)") auto

declare re_finditer.simps [simp del]

text \<open>\<^verbatim>\<open>re.findall\<close> for a pattern without capture groups: the matched texts.\<close>

definition re_findall :: "re \<Rightarrow> string \<Rightarrow> string list" where
  "re_findall r s = map fst (re_finditer r None s)"

text \<open>\<^verbatim>\<open>re.search\<close>: the groups of the leftmost match, if there is one.\<close>

fun re_search_from :: "re \<Rightarrow> char option \<Rightarrow> string \<Rightarrow> groups option" where
  "re_search_from r p [] =
     (case rmatch r (p, [], []) of [] \<Rightarrow> None | st # _ \<Rightarrow> Some (groups_of st))"
| "re_search_from r p (c # cs) =
     (case rmatch r (p, c # cs, []) of
        [] \<Rightarrow> re_search_from r (Some c) cs
      | st # _ \<Rightarrow> Some (groups_of st))"

definition re_search :: "re \<Rightarrow> string \<Rightarrow> groups option" where
  "re_search r s = re_search_from r None s"

subsection \<open>The character classes and the three patterns of the script\<close>

text \<open>
  \<^verbatim>\<open>[A-Z]\<close>, \<^verbatim>\<open>[^)]\<close>, \<^verbatim>\<open>[\s\S]\<close> and \<^verbatim>\<open>.\<close> are decided byte by byte: a class that
  excludes one ASCII character accepts every byte of every other character. The
  patterns are \<^verbatim>\<open>str\<close> patterns without \<^verbatim>\<open>re.ASCII\<close>, so \<^verbatim>\<open>\d\<close>, \<^verbatim>\<open>\w\<close> and \<^verbatim>\<open>\s\<close> are
  the ASCII digits, word characters and whitespace below together with the characters
  that the Unicode database puts in these classes.
\<close>

definition upper :: "char \<Rightarrow> bool" where
  "upper c = (CHR ''A'' \<le> c \<and> c \<le> CHR ''Z'')"

definition digit :: "char \<Rightarrow> bool" where
  "digit c = (CHR ''0'' \<le> c \<and> c \<le> CHR ''9'')"

definition word_char :: "char \<Rightarrow> bool" where
  "word_char c =
     ((CHR ''a'' \<le> c \<and> c \<le> CHR ''z'') \<or> (CHR ''A'' \<le> c \<and> c \<le> CHR ''Z'')
      \<or> (CHR ''0'' \<le> c \<and> c \<le> CHR ''9'') \<or> c = CHR ''_'')"

definition not_rparen :: "char \<Rightarrow> bool" where
  "not_rparen c = (c \<noteq> CHR '')'')"

definition any_char :: "char \<Rightarrow> bool" where
  "any_char c = True"

definition not_newline :: "char \<Rightarrow> bool" where
  "not_newline c = (c \<noteq> CHR 0x0A)"

text \<open>\<^verbatim>\<open>REQ-(?:[A-Z]+-)+\d{3}\<close>, used by both extraction modes.\<close>

definition req_re :: "unicode_db \<Rightarrow> re" where
  "req_re U = Seq (Str ''REQ-'')
             (Seq (Plus (Seq (Plus (Cls upper)) (Str ''-'')))
                  (Rep3 (UCls digit (uni_decimal U))))"

text \<open>\<^verbatim>\<open>def (test_\w+)\([^)]*\):[\s\S]*?"""([\s\S]*?)"""\<close>\<close>

definition doc_re :: "unicode_db \<Rightarrow> re" where
  "doc_re U = Seq (Str ''def '')
             (Seq (Group 1 (Seq (Str ''test_'') (Plus (UCls word_char (uni_word U)))))
             (Seq (Str ''('')
             (Seq (Star (Cls not_rparen))
             (Seq (Str ''):'')
             (Seq (LazyStar (Cls any_char))
             (Seq (Str triple_quote)
             (Seq (Group 2 (LazyStar (Cls any_char)))
                  (Str triple_quote))))))))"

text \<open>\<^verbatim>\<open>^docAuthor:\s*(.+)$\<close> with \<^verbatim>\<open>flags=re.MULTILINE\<close>\<close>

definition author_re :: "unicode_db \<Rightarrow> re" where
  "author_re U = Seq Bol
                (Seq (Str ''docAuthor:'')
                (Seq (Star (UCls is_space (uni_space U)))
                (Seq (Group 1 (Plus (Cls not_newline)))
                     Eol)))"

section \<open>The requirement grammar of the specification\<close>

text \<open>
  The specification's grammar, in its words: \<^verbatim>\<open>REQ-\<close>, then one or more groups of
  uppercase letters each followed by \<^verbatim>\<open>-\<close>, then exactly three decimal digits.
  \<open>is_groups\<close> reads one group (the leading uppercase letters, at least one, and the
  \<^verbatim>\<open>-\<close> behind them) and then either stops or reads groups again.
\<close>

function is_groups :: "string \<Rightarrow> bool" where
  "is_groups s =
     (let seg = takeWhile upper s; rest = dropWhile upper s
      in seg \<noteq> [] \<and>
         (case rest of
            [] \<Rightarrow> False
          | c # rest' \<Rightarrow> c = CHR ''-'' \<and> (rest' = [] \<or> is_groups rest')))"
  by pat_completeness auto
termination
proof (relation "measure length")
  show "wf (measure length)" by simp
next
  fix s :: string and seg rest c rest'
  assume "rest = dropWhile upper s" and "rest = c # rest'"
  then have "length (c # rest') \<le> length s"
    by (metis length_dropWhile_le)
  then show "(rest', s) \<in> measure length"
    by simp
qed

declare is_groups.simps [simp del]

text \<open>
  A decimal digit is one character: an ASCII digit, or a character that the Unicode
  database classifies as a decimal digit. After \<^verbatim>\<open>REQ-\<close> the groups are the longest run
  of uppercase letters and \<^verbatim>\<open>-\<close> (no digit begins with one of these), and what is left
  has to be exactly three decimal digits.
\<close>

definition decimal_digit :: "unicode_db \<Rightarrow> string \<Rightarrow> bool" where
  "decimal_digit U d =
     (case d of
        [] \<Rightarrow> False
      | c # cs \<Rightarrow> if c < CHR 0x80 then cs = [] \<and> digit c else multibyte d \<and> uni_decimal U d)"

definition three_digits :: "unicode_db \<Rightarrow> string \<Rightarrow> bool" where
  "three_digits U t =
     (case utf8_chars t of
        [d1, d2, d3] \<Rightarrow> decimal_digit U d1 \<and> decimal_digit U d2 \<and> decimal_digit U d3
      | _ \<Rightarrow> False)"

definition group_char :: "char \<Rightarrow> bool" where
  "group_char c = (upper c \<or> c = CHR ''-'')"

definition is_req_id :: "unicode_db \<Rightarrow> string \<Rightarrow> bool" where
  "is_req_id U s =
     (take 4 s = ''REQ-''
      \<and> is_groups (takeWhile group_char (drop 4 s))
      \<and> three_digits U (dropWhile group_char (drop 4 s)))"

text \<open>
  The strings that a pattern can consume, without regard to the order of the
  alternatives (the anchors consume nothing).
\<close>

inductive_set star :: "string set \<Rightarrow> string set" for A :: "string set" where
  star_empty: "[] \<in> star A"
| star_step: "u \<in> A \<Longrightarrow> v \<in> star A \<Longrightarrow> u @ v \<in> star A"

fun lang :: "re \<Rightarrow> string set" where
  "lang (Cls P) = {[c] | c. P c}"
| "lang (Str w) = {w}"
| "lang (Seq a b) = {u @ v | u v. u \<in> lang a \<and> v \<in> lang b}"
| "lang (Star a) = star (lang a)"
| "lang (LazyStar a) = star (lang a)"
| "lang (Group n a) = lang a"
| "lang Bol = {[]}"
| "lang Eol = {[]}"
| "lang (UCls P Q) = {[c] | c. c < CHR 0x80 \<and> P c} \<union> {w. multibyte w \<and> Q w}"

fun plain :: "re \<Rightarrow> bool" where
  "plain (Cls P) = True"
| "plain (Str w) = True"
| "plain (Seq a b) = (plain a \<and> plain b)"
| "plain (Star a) = plain a"
| "plain (LazyStar a) = plain a"
| "plain (Group n a) = plain a"
| "plain Bol = False"
| "plain Eol = False"
| "plain (UCls P Q) = True"

section \<open>Identifier extraction\<close>

text \<open>
  \<^verbatim>\<open>extract_requirement_ids_from_docs\<close>: the loop over \<^verbatim>\<open>(SRVP_PATH, SRS_PATH)\<close>; a
  document that is absent or cannot be read adds nothing.
\<close>

definition update_ids_from_doc :: "unicode_db \<Rightarrow> file_state \<Rightarrow> string set \<Rightarrow> string set" where
  "update_ids_from_doc U path ids =
     (if path_exists path
      then (case read_text path of
              Inl e \<Rightarrow> ids
            | Inr text \<Rightarrow> ids \<union> set (re_findall (req_re U) text))
      else ids)"

definition extract_requirement_ids_from_docs ::
  "unicode_db \<Rightarrow> file_state \<Rightarrow> file_state \<Rightarrow> string set" where
  "extract_requirement_ids_from_docs U srvp srs = fold (update_ids_from_doc U) [srvp, srs] {}"

text \<open>
  \<^verbatim>\<open>extract_req_ids_from_docstrings\<close>. \<open>add_test\<close> is the body of the innermost loop:
  \<^verbatim>\<open>if req_id not in req_to_tests: req_to_tests[req_id] = []\<close> and then
  \<^verbatim>\<open>req_to_tests[req_id].append(full_test_name)\<close>.
\<close>

definition add_test ::
  "(string, string list) pydict \<Rightarrow> string \<Rightarrow> string \<Rightarrow> (string, string list) pydict" where
  "add_test req_to_tests req_id full_test_name =
     (let d = (if map_of req_to_tests req_id = None
               then dict_set req_to_tests req_id [] else req_to_tests)
      in dict_set d req_id (dict_get d req_id [] @ [full_test_name]))"

text \<open>One match of the declaration pattern: the test id and the ids of its group 2.\<close>

definition annotation ::
  "unicode_db \<Rightarrow> string \<Rightarrow> string \<times> groups \<Rightarrow> string \<times> string list" where
  "annotation U file_name mt =
     (let test_name = group (snd mt) 1;
          docstring = group (snd mt) 2;
          full_test_name = ''tests/'' @ file_name @ ''::'' @ test_name;
          req_ids = re_findall (req_re U) docstring
      in (full_test_name, req_ids))"

definition annotations :: "unicode_db \<Rightarrow> string \<Rightarrow> string \<Rightarrow> (string \<times> string list) list" where
  "annotations U file_name content =
     map (annotation U file_name) (re_finditer (doc_re U) None content)"

definition add_annotation ::
  "string \<times> string list \<Rightarrow> (string, string list) pydict \<Rightarrow> (string, string list) pydict" where
  "add_annotation a req_to_tests =
     fold (\<lambda>req_id d. add_test d req_id (fst a)) (snd a) req_to_tests"

fun scan_files ::
  "unicode_db \<Rightarrow> (string \<times> file_state) list \<Rightarrow> (string, string list) pydict
     \<Rightarrow> error + (string, string list) pydict" where
  "scan_files U [] req_to_tests = Inr req_to_tests"
| "scan_files U ((file_name, f) # fs) req_to_tests =
     (case read_text f of
        Inl e \<Rightarrow> Inl e
      | Inr content \<Rightarrow>
          scan_files U fs (fold add_annotation (annotations U file_name content) req_to_tests))"

text \<open>\<^verbatim>\<open>TESTS_DIR.glob("test_*.py")\<close> keeps the entries named \<^verbatim>\<open>test_*.py\<close>.\<close>

definition glob_test :: "string \<Rightarrow> bool" where
  "glob_test name =
     (8 \<le> length name \<and> take 5 name = ''test_'' \<and> drop (length name - 3) name = ''.py'')"

definition extract_req_ids_from_docstrings ::
  "unicode_db \<Rightarrow> (string \<times> file_state) list \<Rightarrow> error + (string, string list) pydict" where
  "extract_req_ids_from_docstrings U entries =
     scan_files U (filter (\<lambda>(name, f). glob_test name) entries) []"

text \<open>
  For stating what the association map holds: the annotations that a readable entry of
  the tests directory contributes, and the test ids of a list of annotations that
  mention a requirement id, one for each occurrence of the id, in order.
\<close>

definition file_annotations ::
  "unicode_db \<Rightarrow> string \<times> file_state \<Rightarrow> (string \<times> string list) list" where
  "file_annotations U entry =
     (case read_text (snd entry) of
        Inl e \<Rightarrow> []
      | Inr content \<Rightarrow> annotations U (fst entry) content)"

definition occurrences :: "string \<Rightarrow> (string \<times> string list) list \<Rightarrow> string list" where
  "occurrences req_id anns =
     concat (map (\<lambda>a. replicate (count_list (snd a) req_id) (fst a)) anns)"

section \<open>Status resolution: \<^verbatim>\<open>get_requirement_statuses\<close>\<close>

definition outcomes_of :: "(string, string) pydict \<Rightarrow> string list \<Rightarrow> string list" where
  "outcomes_of test_outcomes test_names =
     map (\<lambda>name. dict_get test_outcomes name ''skipped'') test_names"

definition resolve_step ::
  "(string, string) pydict \<Rightarrow> string \<times> string list
     \<Rightarrow> (string, string) pydict \<Rightarrow> (string, string) pydict" where
  "resolve_step test_outcomes item req_statuses =
     (let req_id = fst item;
          outcomes = outcomes_of test_outcomes (snd item)
      in if ''failed'' \<in> set outcomes then dict_set req_statuses req_id ''[x] Failed''
         else if outcomes \<noteq> [] \<and> list_all (\<lambda>out. out = ''passed'') outcomes
              then dict_set req_statuses req_id ''[x] Verified''
         else req_statuses)"

definition get_requirement_statuses ::
  "(string, string) pydict \<Rightarrow> (string, string list) pydict \<Rightarrow> (string, string) pydict" where
  "get_requirement_statuses test_outcomes req_to_tests =
     fold (resolve_step test_outcomes) req_to_tests []"

section \<open>The environment of one run\<close>

text \<open>
  Everything the script reads from outside: the Unicode database of the interpreter,
  the environment variables, the two documents, the entries of the tests directory
  (\<open>None\<close> when it does not exist, else names and files in the order of \<^verbatim>\<open>glob\<close>), the
  import of \<^verbatim>\<open>core.version\<close>, the two \<^verbatim>\<open>git\<close> queries, the clock, the conversion
  \<^verbatim>\<open>datetime.fromisoformat(..).date().isoformat()\<close> (\<open>None\<close> when it raises), the exit
  statuses of the two \<^verbatim>\<open>pytest\<close> runs, the feed as it is after the test run, and the
  report file: its content before the run (\<open>None\<close> when there is no such file), whether
  it can be opened for writing, and whether writing to it fails (\<open>None\<close> when it does
  not, else what has reached the file when \<^verbatim>\<open>OSError\<close> is raised).
\<close>

record world =
  unicode :: unicode_db
  RELEASE_AUTHOR :: "string option"
  GITHUB_ACTOR :: "string option"
  RELEASE_DATE :: "string option"
  srvp_file :: file_state
  srs_file :: file_state
  tests_dir :: "(string \<times> file_state) list option"
  core_version :: "string option"
  git_user_name :: cmd_result
  git_log_date :: cmd_result
  today :: string
  fromisoformat_date :: "string \<Rightarrow> string option"
  pytest_version_rc :: int
  pytest_run_rc :: int
  report_json :: feed
  output_file :: "string option"
  output_opens :: bool
  output_write_fails :: "string option"

section \<open>Metadata resolution\<close>

text \<open>\<^verbatim>\<open>_read_doc_author_from_srvp\<close>: any exception of the body is swallowed.\<close>

definition read_doc_author_from_srvp :: "unicode_db \<Rightarrow> file_state \<Rightarrow> string option" where
  "read_doc_author_from_srvp U srvp =
     (if path_exists srvp
      then (case read_text srvp of
              Inl e \<Rightarrow> None
            | Inr txt \<Rightarrow>
                (case re_search (author_re U) txt of
                   None \<Rightarrow> None
                 | Some g \<Rightarrow> Some (strip U (group g 1))))
      else None)"

text \<open>\<^verbatim>\<open>_git_cmd_output\<close>: the stripped output, \<open>None\<close> on any exception.\<close>

fun git_cmd_output :: "unicode_db \<Rightarrow> cmd_result \<Rightarrow> string option" where
  "git_cmd_output U CmdFailed = None"
| "git_cmd_output U (CmdOutput out) = Some (strip U out)"

text \<open>\<^verbatim>\<open>iso.replace("Z", "+00:00")\<close>\<close>

fun replace_Z :: "string \<Rightarrow> string" where
  "replace_Z [] = []"
| "replace_Z (c # cs) = (if c = CHR ''Z'' then ''+00:00'' @ replace_Z cs else c # replace_Z cs)"

definition resolve_version :: "world \<Rightarrow> string" where
  "resolve_version w = (case core_version w of None \<Rightarrow> ''0.0.0'' | Some ver \<Rightarrow> ver)"

definition resolve_author :: "world \<Rightarrow> string" where
  "resolve_author w =
     (case py_or (py_or (py_or (py_or (RELEASE_AUTHOR w) (GITHUB_ACTOR w))
                               (read_doc_author_from_srvp (unicode w) (srvp_file w)))
                        (git_cmd_output (unicode w) (git_user_name w)))
                 (Some ''Unknown'') of
        None \<Rightarrow> []
      | Some author \<Rightarrow> author)"

definition resolve_date :: "world \<Rightarrow> string" where
  "resolve_date w =
     (let date0 = RELEASE_DATE w;
          date1 = (if \<not> truthy date0
                   then (case git_cmd_output (unicode w) (git_log_date w) of
                           None \<Rightarrow> date0
                         | Some iso_date \<Rightarrow>
                             if iso_date \<noteq> []
                             then fromisoformat_date w (replace_Z iso_date) else date0)
                   else date0)
      in case date1 of
           None \<Rightarrow> today w
         | Some d \<Rightarrow> if d \<noteq> [] then d else today w)"

definition get_release_metadata :: "world \<Rightarrow> string \<times> string \<times> string" where
  "get_release_metadata w = (resolve_version w, resolve_author w, resolve_date w)"

section \<open>Report synthesis: \<^verbatim>\<open>build_markdown_report\<close>\<close>

definition not_started :: string where
  "not_started = ''[ ] Not Started''"

definition status_of :: "(string, string) pydict \<Rightarrow> string \<Rightarrow> string" where
  "status_of req_statuses req_id = dict_get req_statuses req_id not_started"

text \<open>\<^verbatim>\<open>sum(1 for x in xs if P(x))\<close>\<close>

definition count_if :: "('a \<Rightarrow> bool) \<Rightarrow> 'a list \<Rightarrow> int" where
  "count_if P xs = int (length (filter P xs))"

text \<open>\<^verbatim>\<open>sorted(set(req_to_tests.keys()) | ids_from_docs)\<close>\<close>

definition all_req_ids_sorted :: "(string, string list) pydict \<Rightarrow> string set \<Rightarrow> string list" where
  "all_req_ids_sorted req_to_tests ids_from_docs =
     sorted_list_of_set (set (map fst req_to_tests) \<union> ids_from_docs)"

text \<open>The four requirement counters: verified, failed, pending and total.\<close>

definition requirement_counts ::
  "(string, string) pydict \<Rightarrow> string list \<Rightarrow> int \<times> int \<times> int \<times> int" where
  "requirement_counts req_statuses ids =
     (let total_reqs = int (length ids);
          verified = count_if (\<lambda>rid. endswith (status_of req_statuses rid) ''Verified'') ids;
          req_failed = count_if (\<lambda>rid. endswith (status_of req_statuses rid) ''Failed'') ids;
          pending = total_reqs - verified - req_failed
      in (verified, req_failed, pending, total_reqs))"

definition front_matter :: "string \<times> string \<times> string \<Rightarrow> string list" where
  "front_matter meta =
     (case meta of (version, author, date) \<Rightarrow>
      [''---'',
       ''docType: Software Requirements Verification Plan Report (SRVPR)'',
       ''docSubtitle: CAN Frame Retransmission Tool'',
       ''docVersion: '' @ version,
       ''docAuthor: '' @ author,
       ''createdDate: '' @ date,
       ''---'',
       [],
       ''# Test Report - SRVP Functional Requirements'',
       [],
       ''This document summarizes the latest test run and the verification status ''
         @ ''of the SRVP functional requirements.'',
       []])"

definition tests_summary :: "(string, string) pydict \<Rightarrow> string" where
  "tests_summary test_outcomes =
     (let total_tests = int (length test_outcomes);
          passed = count_if (\<lambda>out. out = ''passed'') (map snd test_outcomes);
          failed = count_if (\<lambda>out. out = ''failed'') (map snd test_outcomes);
          skipped = count_if (\<lambda>out. out = ''skipped'') (map snd test_outcomes)
      in ''- Tests: '' @ py_str passed @ '' passed, '' @ py_str failed @ '' failed, ''
           @ py_str skipped @ '' skipped (total '' @ py_str total_tests @ '')'')"

definition requirements_summary :: "int \<times> int \<times> int \<times> int \<Rightarrow> string" where
  "requirements_summary counts =
     (case counts of (verified, req_failed, pending, total_reqs) \<Rightarrow>
      ''- Requirements: '' @ py_str verified @ '' verified, '' @ py_str req_failed
        @ '' failed, '' @ py_str pending @ '' pending '' @ ''(total '' @ py_str total_reqs @ '')'')"

definition table_row ::
  "(string, string) pydict \<Rightarrow> (string, string list) pydict \<Rightarrow> string \<Rightarrow> string" where
  "table_row req_statuses req_to_tests req_id =
     (let status = dict_get req_statuses req_id not_started;
          tests = join '', '' (dict_get req_to_tests req_id [])
      in ''| '' @ req_id @ '' | '' @ status @ '' | '' @ tests @ '' |'')"

definition evidence_line :: "(string, string) pydict \<Rightarrow> string \<Rightarrow> string" where
  "evidence_line test_outcomes nodeid =
     (let outcome = dict_get test_outcomes nodeid ''skipped'';
          badge = (if outcome = ''passed'' then check_mark
                   else if outcome = ''failed'' then cross_mark else minus_mark)
      in ''  - '' @ badge @ '' '' @ backtick @ nodeid @ backtick @ '' '' @ em_dash @ '' ''
           @ outcome)"

definition detail_block ::
  "(string, string) pydict \<Rightarrow> (string, string list) pydict \<Rightarrow> (string, string) pydict
     \<Rightarrow> string \<Rightarrow> string list" where
  "detail_block req_statuses req_to_tests test_outcomes req_id =
     [''### '' @ req_id,
      [],
      ''- Status: '' @ dict_get req_statuses req_id not_started,
      ''- Tests:'']
     @ map (evidence_line test_outcomes) (dict_get req_to_tests req_id [])
     @ (if dict_get req_to_tests req_id [] = []
        then [''  - '' @ minus_mark @ '' No tests mapped yet''] else [])
     @ [[]]"

text \<open>The lines up to and including the head of the requirements table.\<close>

definition report_head ::
  "string \<times> string \<times> string \<Rightarrow> (string, string) pydict \<Rightarrow> (string, string) pydict
     \<Rightarrow> string list \<Rightarrow> string list" where
  "report_head meta req_statuses test_outcomes ids =
     front_matter meta
     @ [''## Summary'',
        [],
        tests_summary test_outcomes,
        requirements_summary (requirement_counts req_statuses ids),
        [],
        ''## Requirements Status'',
        [],
        ''| Requirement | Status | Tests |'',
        ''| --- | --- | --- |'']"

definition report_lines ::
  "string \<times> string \<times> string \<Rightarrow> string list \<Rightarrow> (string, string) pydict
     \<Rightarrow> (string, string list) pydict \<Rightarrow> (string, string) pydict \<Rightarrow> string list" where
  "report_lines meta ids req_statuses req_to_tests test_outcomes =
     report_head meta req_statuses test_outcomes ids
     @ map (table_row req_statuses req_to_tests) ids
     @ [[], ''## Details'', []]
     @ concat (map (detail_block req_statuses req_to_tests test_outcomes) ids)"

definition build_markdown_report ::
  "world \<Rightarrow> (string, string) pydict \<Rightarrow> (string, string list) pydict
     \<Rightarrow> (string, string) pydict \<Rightarrow> string" where
  "build_markdown_report w req_statuses req_to_tests test_outcomes =
     (let ids_from_docs = extract_requirement_ids_from_docs (unicode w) (srvp_file w) (srs_file w);
          ids = all_req_ids_sorted req_to_tests ids_from_docs;
          meta = get_release_metadata w
      in join nl (report_lines meta ids req_statuses req_to_tests test_outcomes))"

section \<open>Reading a report\<close>

text \<open>
  What a reader finds in the text of a report, for stating what the report lists. The
  lines of a text are the pieces between its newlines (\<^verbatim>\<open>text.split("\n")\<close>). The rows
  of the requirements table are the lines below the separator line of the table head,
  up to the first empty line; the id of a row is what stands between the leading
  \<^verbatim>\<open>| \<close> and the next space. The detail section begins at the line \<^verbatim>\<open>## Details\<close>; the
  ids of its blocks are what follows \<^verbatim>\<open>### \<close> in its heading lines.
\<close>

definition single_line :: "string \<Rightarrow> bool" where
  "single_line s = (CHR 0x0A \<notin> set s)"

fun split_lines :: "string \<Rightarrow> string list" where
  "split_lines [] = [[]]"
| "split_lines (c # cs) =
     (if c = CHR 0x0A then [] # split_lines cs
      else (case split_lines cs of [] \<Rightarrow> [[c]] | l # ls \<Rightarrow> (c # l) # ls))"

definition table_rows :: "string list \<Rightarrow> string list" where
  "table_rows ls =
     takeWhile (\<lambda>l. l \<noteq> []) (drop 1 (dropWhile (\<lambda>l. l \<noteq> ''| --- | --- | --- |'') ls))"

definition row_id :: "string \<Rightarrow> string" where
  "row_id row = takeWhile (\<lambda>c. c \<noteq> CHR '' '') (drop 2 row)"

definition table_ids :: "string \<Rightarrow> string list" where
  "table_ids report = map row_id (table_rows (split_lines report))"

definition detail_ids :: "string \<Rightarrow> string list" where
  "detail_ids report =
     map (drop 4)
         (filter (\<lambda>l. take 4 l = ''### '')
                 (dropWhile (\<lambda>l. l \<noteq> ''## Details'') (split_lines report)))"

section \<open>The pipeline: \<^verbatim>\<open>main\<close>\<close>

text \<open>
  \<^verbatim>\<open>subprocess.run(..., check=True)\<close> raises \<^verbatim>\<open>CalledProcessError\<close> on a non-zero exit
  status; both callers catch it and return \<^verbatim>\<open>False\<close>.
\<close>

definition check_pytest_available :: "world \<Rightarrow> bool" where
  "check_pytest_available w = (pytest_version_rc w = 0)"

definition run_tests :: "world \<Rightarrow> bool" where
  "run_tests w = (pytest_run_rc w = 0)"

text \<open>
  Whether a text can be encoded as UTF-8. A Python string that cannot (it holds a
  surrogate, as \<^verbatim>\<open>os.environ\<close> and \<^verbatim>\<open>json.load\<close> can deliver) is modelled by bytes that
  are not well-formed UTF-8.
\<close>

fun valid_utf8 :: "string \<Rightarrow> bool" where
  "valid_utf8 [] = True"
| "valid_utf8 [a] = (a < CHR 0x80)"
| "valid_utf8 [a, b] =
     (if a < CHR 0x80 then valid_utf8 [b]
      else CHR 0xC2 \<le> a \<and> a \<le> CHR 0xDF \<and> utf8_tail b)"
| "valid_utf8 [a, b, c] =
     (if a < CHR 0x80 then valid_utf8 [b, c]
      else if CHR 0xC2 \<le> a \<and> a \<le> CHR 0xDF then utf8_tail b \<and> valid_utf8 [c]
      else CHR 0xE0 \<le> a \<and> a \<le> CHR 0xEF \<and> utf8_tail b \<and> utf8_tail c
           \<and> (if a = CHR 0xE0 then CHR 0xA0 \<le> b else if a = CHR 0xED then b \<le> CHR 0x9F else True))"
| "valid_utf8 (a # b # c # d # rest) =
     (if a < CHR 0x80 then valid_utf8 (b # c # d # rest)
      else if CHR 0xC2 \<le> a \<and> a \<le> CHR 0xDF then utf8_tail b \<and> valid_utf8 (c # d # rest)
      else if CHR 0xE0 \<le> a \<and> a \<le> CHR 0xEF
           then utf8_tail b \<and> utf8_tail c
                \<and> (if a = CHR 0xE0 then CHR 0xA0 \<le> b else if a = CHR 0xED then b \<le> CHR 0x9F else True)
                \<and> valid_utf8 (d # rest)
      else CHR 0xF0 \<le> a \<and> a \<le> CHR 0xF4 \<and> utf8_tail b \<and> utf8_tail c \<and> utf8_tail d
           \<and> (if a = CHR 0xF0 then CHR 0x90 \<le> b else if a = CHR 0xF4 then b \<le> CHR 0x8F else True)
           \<and> valid_utf8 rest)"

text \<open>
  \<^verbatim>\<open>OUTPUT_PATH.write_text(report, encoding="utf-8")\<close> opens the file with mode \<^verbatim>\<open>w\<close>,
  which empties it, then encodes the text and writes it. \<open>write_text w report\<close> is the
  exception that is raised, if any, and the content of the report file afterwards: when
  the file cannot be opened it is left as it was; when the text cannot be encoded the
  file is left empty; when writing fails the file holds what had been written.
\<close>

definition write_text :: "world \<Rightarrow> string \<Rightarrow> error option \<times> string option" where
  "write_text w report =
     (if \<not> output_opens w then (Some OSError, output_file w)
      else if \<not> valid_utf8 report then (Some UnicodeEncodeError, Some [])
      else (case output_write_fails w of
              Some left \<Rightarrow> (Some OSError, Some left)
            | None \<Rightarrow> (None, Some report)))"

definition write_markdown_report ::
  "world \<Rightarrow> (string, string) pydict \<Rightarrow> (string, string list) pydict
     \<Rightarrow> (string, string) pydict \<Rightarrow> error option \<times> string option" where
  "write_markdown_report w req_statuses req_to_tests test_outcomes =
     (let report = build_markdown_report w req_statuses req_to_tests test_outcomes
      in write_text w report)"

text \<open>
  \<open>main w\<close> is the exit status together with the content of the report file after the
  run. Every exception of steps 1 to 5 is caught by the \<^verbatim>\<open>except Exception\<close> of \<^verbatim>\<open>main\<close>;
  only step 5 touches the report file.
\<close>

definition main :: "world \<Rightarrow> int \<times> string option" where
  "main w =
     (if \<not> check_pytest_available w then (1, output_file w)
      else (case tests_dir w of
        None \<Rightarrow> (1, output_file w)
      | Some entries \<Rightarrow>
          (if \<not> run_tests w then (1, output_file w)
           else (case parse_test_report (report_json w) of
             Inl e \<Rightarrow> (1, output_file w)
           | Inr test_outcomes \<Rightarrow>
               (case extract_req_ids_from_docstrings (unicode w) entries of
                  Inl e \<Rightarrow> (1, output_file w)
                | Inr req_to_tests \<Rightarrow>
                    (let req_statuses = get_requirement_statuses test_outcomes req_to_tests
                     in (case write_markdown_report w req_statuses req_to_tests test_outcomes of
                           (Some e, out) \<Rightarrow> (1, out)
                         | (None, out) \<Rightarrow> (0, out))))))))"

section \<open>A sample run\<close>

text \<open>
  One environment in which every step succeeds: two test files with one annotated test
  each, of which one passed and one failed, a plan document that names two
  requirements, no override of the author.
  All of its texts are ASCII, so the classes of the other characters play no part in
  it; \<open>ascii_db\<close> has none.
\<close>

definition example_dir :: "(string \<times> file_state) list" where
  "example_dir =
     [(''test_a.py'',
       Content (''def test_x():'' @ nl @ ''    '' @ triple_quote @ ''REQ-FUNC-LOG-010''
                @ triple_quote @ nl @ ''    assert True'' @ nl)),
      (''test_b.py'',
       Content (''def test_y():'' @ nl @ ''    '' @ triple_quote @ ''REQ-A-001''
                @ triple_quote @ nl @ ''    assert False'' @ nl))]"

definition ascii_db :: unicode_db where
  "ascii_db = \<lparr>uni_decimal = (\<lambda>w. False), uni_word = (\<lambda>w. False), uni_space = (\<lambda>w. False)\<rparr>"

definition example_world :: world where
  "example_world =
     \<lparr>unicode = ascii_db,
      RELEASE_AUTHOR = None,
      GITHUB_ACTOR = Some ''ci-bot'',
      RELEASE_DATE = Some ''2025-09-16'',
      srvp_file = Content (''docAuthor: Jane Doe'' @ nl @ ''REQ-FUNC-LOG-010, REQ-NFR-REL-001''),
      srs_file = Missing,
      tests_dir = Some example_dir,
      core_version = Some ''1.2.3'',
      git_user_name = CmdOutput (''Dev'' @ nl),
      git_log_date = CmdFailed,
      today = ''2025-09-17'',
      fromisoformat_date = (\<lambda>s. None),
      pytest_version_rc = 0,
      pytest_run_rc = 0,
      report_json = Feed (Some [(''tests/test_a.py::test_x'', ''passed''),
                                (''tests/test_b.py::test_y'', ''failed'')]),
      output_file = Some ''old report'',
      output_opens = True,
      output_write_fails = None\<rparr>"

text \<open>
  The outcome store, the association map and the status map of this run, and an
  environment that differs from it but gives the same metadata and the same document
  ids: the author comes from the override and the ids from the other document, in
  another order and one of them twice.
\<close>

definition example_outcomes :: "(string, string) pydict" where
  "example_outcomes =
     [(''tests/test_a.py::test_x'', ''passed''), (''tests/test_b.py::test_y'', ''failed'')]"

definition example_tests :: "(string, string list) pydict" where
  "example_tests =
     [(''REQ-FUNC-LOG-010'', [''tests/test_a.py::test_x'']),
      (''REQ-A-001'', [''tests/test_b.py::test_y''])]"

definition example_statuses :: "(string, string) pydict" where
  "example_statuses =
     [(''REQ-FUNC-LOG-010'', ''[x] Verified''), (''REQ-A-001'', ''[x] Failed'')]"

definition other_world :: world where
  "other_world =
     example_world\<lparr>RELEASE_AUTHOR := Some ''ci-bot'', GITHUB_ACTOR := None,
       srvp_file := Missing,
       srs_file := Content ''REQ-NFR-REL-001 REQ-FUNC-LOG-010 REQ-NFR-REL-001'',
       git_user_name := CmdFailed\<rparr>"

text \<open>
  A database that knows the Arabic-Indic digits U+0660 to U+0669 (the bytes D9 A0 to
  D9 A9), which Unicode classifies as decimal digits and so as word characters, and the
  identifier \<^verbatim>\<open>REQ-A-\<close> followed by the Arabic-Indic digits one, two and three.
\<close>

definition arabic_indic_digit :: "string \<Rightarrow> bool" where
  "arabic_indic_digit w =
     (case w of [a, b] \<Rightarrow> a = CHR 0xD9 \<and> CHR 0xA0 \<le> b \<and> b \<le> CHR 0xA9 | _ \<Rightarrow> False)"

definition arabic_indic_db :: unicode_db where
  "arabic_indic_db =
     \<lparr>uni_decimal = arabic_indic_digit, uni_word = arabic_indic_digit,
      uni_space = (\<lambda>w. False)\<rparr>"

definition arabic_indic_id :: string where
  "arabic_indic_id = ''REQ-A-'' @ [CHR 0xD9, CHR 0xA1, CHR 0xD9, CHR 0xA2, CHR 0xD9, CHR 0xA3]"

text \<open>
  A tests directory with two test files and one file that the glob pattern skips; the
  docstring of \<^verbatim>\<open>test_x\<close> names one requirement twice.
\<close>

definition example_entries :: "(string \<times> file_state) list" where
  "example_entries =
     [(''test_b.py'', Content (''def test_y():'' @ nl @ ''    '' @ triple_quote
                        @ ''REQ-A-001'' @ triple_quote @ nl)),
      (''conftest.py'', Content ''REQ-C-003''),
      (''test_a.py'', Content (''def test_x():'' @ nl @ ''    '' @ triple_quote
                        @ ''REQ-A-001 REQ-B-002 REQ-A-001'' @ triple_quote @ nl))]"

section \<open>Dictionary lemmas\<close>

lemma map_of_dict_set: "map_of (dict_set d k v) = (map_of d)(k \<mapsto> v)"
  by (induction d) (auto simp: fun_eq_iff)

lemma keys_dict_set:
  "map fst (dict_set d k v) = (if k \<in> set (map fst d) then map fst d else map fst d @ [k])"
proof (induction d)
  case Nil
  then show ?case by simp
next
  case (Cons a d)
  obtain k' v' where a: "a = (k', v')" by (cases a)
  show ?case
  proof (cases "k' = k")
    case True
    then show ?thesis by (simp add: a)
  next
    case False
    then show ?thesis using Cons.IH by (simp add: a)
  qed
qed

lemma values_dict_set: "x \<in> set (dict_set d k v) \<Longrightarrow> snd x = v \<or> x \<in> set d"
  by (induction d) (auto split: if_splits)

lemma is_dict_dict_set: "is_dict d \<Longrightarrow> is_dict (dict_set d k v)"
  by (simp add: is_dict_def keys_dict_set)

section \<open>Status resolution\<close>

lemma map_of_fold_resolve:
  "distinct (map fst rt) \<Longrightarrow>
   map_of (fold (resolve_step tos) rt acc) rid =
     (case map_of rt rid of
        None \<Rightarrow> map_of acc rid
      | Some tests \<Rightarrow>
          (if ''failed'' \<in> set (outcomes_of tos tests) then Some ''[x] Failed''
           else if outcomes_of tos tests \<noteq> [] \<and> list_all (\<lambda>out. out = ''passed'') (outcomes_of tos tests)
                then Some ''[x] Verified''
           else map_of acc rid))"
proof (induction rt arbitrary: acc)
  case Nil
  then show ?case by simp
next
  case (Cons item rt)
  obtain k ts where item: "item = (k, ts)" by (cases item)
  from Cons.prems have d: "distinct (map fst rt)" and k: "k \<notin> fst ` set rt"
    by (auto simp: item)
  from k have none: "map_of rt k = None"
    by (simp add: map_of_eq_None_iff)
  have step: "fold (resolve_step tos) (item # rt) acc
                = fold (resolve_step tos) rt (resolve_step tos (k, ts) acc)"
    by (simp add: item)
  show ?case
  proof (cases "rid = k")
    case True
    then show ?thesis
      unfolding step Cons.IH [OF d]
      using none by (simp add: item resolve_step_def map_of_dict_set Let_def)
  next
    case False
    then show ?thesis
      unfolding step Cons.IH [OF d]
      by (simp add: item resolve_step_def map_of_dict_set Let_def split: option.splits)
  qed
qed

lemma values_resolve_step:
  "x \<in> set (resolve_step tos item acc) \<Longrightarrow>
     snd x = ''[x] Failed'' \<or> snd x = ''[x] Verified'' \<or> x \<in> set acc"
  by (auto simp: resolve_step_def Let_def split: if_splits dest: values_dict_set)

lemma statuses_values:
  "x \<in> set (fold (resolve_step tos) rt acc) \<Longrightarrow>
     snd x = ''[x] Failed'' \<or> snd x = ''[x] Verified'' \<or> x \<in> set acc"
proof (induction rt arbitrary: acc)
  case Nil
  then show ?case by simp
next
  case (Cons item rt)
  from Cons.prems have "x \<in> set (fold (resolve_step tos) rt (resolve_step tos item acc))"
    by simp
  from Cons.IH [OF this] values_resolve_step [of x tos item acc]
  show ?case
    by blast
qed

lemma status_of_cases:
  "(map_of (get_requirement_statuses tos rt) rid = None
      \<and> status_of (get_requirement_statuses tos rt) rid = not_started)
   \<or> status_of (get_requirement_statuses tos rt) rid = ''[x] Failed''
   \<or> status_of (get_requirement_statuses tos rt) rid = ''[x] Verified''"
proof (cases "map_of (get_requirement_statuses tos rt) rid")
  case None
  then show ?thesis by (simp add: status_of_def dict_get_def)
next
  case (Some st)
  then have "(rid, st) \<in> set (fold (resolve_step tos) rt [])"
    by (auto simp: get_requirement_statuses_def dest: map_of_SomeD)
  from statuses_values [OF this] Some show ?thesis
    by (auto simp: status_of_def dict_get_def)
qed

lemma count_partition:
  "\<forall>x \<in> set xs. (P x \<and> \<not> Q x \<and> \<not> R x) \<or> (\<not> P x \<and> Q x \<and> \<not> R x) \<or> (\<not> P x \<and> \<not> Q x \<and> R x) \<Longrightarrow>
   count_if P xs + count_if Q xs + count_if R xs = int (length xs)"
  by (induction xs) (auto simp: count_if_def)

lemma endswith_statuses:
  "endswith ''[x] Failed'' ''Failed''" "\<not> endswith ''[x] Failed'' ''Verified''"
  "endswith ''[x] Verified'' ''Verified''" "\<not> endswith ''[x] Verified'' ''Failed''"
  "\<not> endswith not_started ''Verified''" "\<not> endswith not_started ''Failed''"
  "not_started \<noteq> ''[x] Failed''" "not_started \<noteq> ''[x] Verified''"
  by (simp_all add: endswith_def not_started_def)

text \<open>
  Claim C1. For a requirement id with at least one associated test, the resolved status
  (the entry of the status map, \<^verbatim>\<open>[ ] Not Started\<close> when there is none) follows the
  priority rules over the outcomes of its tests, an outcome being \<^verbatim>\<open>skipped\<close> for a test
  id that the outcome store does not hold: \<^verbatim>\<open>[x] Failed\<close> if some outcome is \<^verbatim>\<open>failed\<close>,
  else \<^verbatim>\<open>[x] Verified\<close> if all outcomes are \<^verbatim>\<open>passed\<close>, else \<^verbatim>\<open>[ ] Not Started\<close>.
\<close>

theorem status_resolution_priority:
  assumes "is_dict req_to_tests"
    and "map_of req_to_tests req_id = Some tests"
    and "tests \<noteq> []"
  shows "status_of (get_requirement_statuses test_outcomes req_to_tests) req_id =
     (let outcomes = map (\<lambda>t. dict_get test_outcomes t ''skipped'') tests
      in if ''failed'' \<in> set outcomes then ''[x] Failed''
         else if (\<forall>out \<in> set outcomes. out = ''passed'') then ''[x] Verified''
         else ''[ ] Not Started'')"
  using assms
  by (simp add: status_of_def get_requirement_statuses_def dict_get_def is_dict_def
      map_of_fold_resolve outcomes_of_def list_all_iff not_started_def Let_def)

theorem status_resolution_priority_witness:
  "is_dict [(''REQ-A-001'', [''t1'', ''t2'', ''t3'']), (''REQ-B-002'', [''t1'']), (''REQ-C-003'', [''t1'', ''t3''])]
   \<and> status_of (get_requirement_statuses [(''t1'', ''passed''), (''t2'', ''failed'')]
        [(''REQ-A-001'', [''t1'', ''t2'', ''t3'']), (''REQ-B-002'', [''t1'']), (''REQ-C-003'', [''t1'', ''t3''])])
        ''REQ-A-001'' = ''[x] Failed''
   \<and> status_of (get_requirement_statuses [(''t1'', ''passed''), (''t2'', ''failed'')]
        [(''REQ-A-001'', [''t1'', ''t2'', ''t3'']), (''REQ-B-002'', [''t1'']), (''REQ-C-003'', [''t1'', ''t3''])])
        ''REQ-B-002'' = ''[x] Verified''
   \<and> status_of (get_requirement_statuses [(''t1'', ''passed''), (''t2'', ''failed'')]
        [(''REQ-A-001'', [''t1'', ''t2'', ''t3'']), (''REQ-B-002'', [''t1'']), (''REQ-C-003'', [''t1'', ''t3''])])
        ''REQ-C-003'' = ''[ ] Not Started''"
  using status_resolution_priority [of
      "[(''REQ-A-001'', [''t1'', ''t2'', ''t3'']), (''REQ-B-002'', [''t1'']), (''REQ-C-003'', [''t1'', ''t3''])]"
      "''REQ-A-001''" "[''t1'', ''t2'', ''t3'']" "[(''t1'', ''passed''), (''t2'', ''failed'')]"]
    status_resolution_priority [of
      "[(''REQ-A-001'', [''t1'', ''t2'', ''t3'']), (''REQ-B-002'', [''t1'']), (''REQ-C-003'', [''t1'', ''t3''])]"
      "''REQ-B-002''" "[''t1'']" "[(''t1'', ''passed''), (''t2'', ''failed'')]"]
    status_resolution_priority [of
      "[(''REQ-A-001'', [''t1'', ''t2'', ''t3'']), (''REQ-B-002'', [''t1'']), (''REQ-C-003'', [''t1'', ''t3''])]"
      "''REQ-C-003''" "[''t1'', ''t3'']" "[(''t1'', ''passed''), (''t2'', ''failed'')]"]
  by (simp add: is_dict_def dict_get_def)

text \<open>
  Claim C10. The status map holds only \<^verbatim>\<open>[x] Failed\<close> and \<^verbatim>\<open>[x] Verified\<close> entries.
  \<^verbatim>\<open>[ ] Not Started\<close> is the status of exactly the ids that the map does not hold, where
  the renderer supplies it as the default. So the pending counter is the number of
  requirement ids without an entry, and the verified, failed and pending counters of
  the summary add up to the total, for every list of ids that is rendered.
\<close>

theorem status_map_never_stores_not_started:
  "(\<forall>(rid, st) \<in> set (get_requirement_statuses tos rt). st = ''[x] Failed'' \<or> st = ''[x] Verified'')
   \<and> (status_of (get_requirement_statuses tos rt) rid = not_started
        \<longleftrightarrow> map_of (get_requirement_statuses tos rt) rid = None)
   \<and> (case requirement_counts (get_requirement_statuses tos rt) ids of
        (verified, req_failed, pending, total_reqs) \<Rightarrow>
          verified + req_failed + pending = total_reqs
          \<and> pending = count_if (\<lambda>r. status_of (get_requirement_statuses tos rt) r = not_started) ids
          \<and> total_reqs = int (length ids))"
proof (intro conjI)
  show "\<forall>(rid, st) \<in> set (get_requirement_statuses tos rt). st = ''[x] Failed'' \<or> st = ''[x] Verified''"
    using statuses_values [of _ tos rt "[]"]
    by (fastforce simp: get_requirement_statuses_def)
next
  show "status_of (get_requirement_statuses tos rt) rid = not_started
        \<longleftrightarrow> map_of (get_requirement_statuses tos rt) rid = None"
    using status_of_cases [of tos rt rid] endswith_statuses(7,8)
    by (auto simp: status_of_def dict_get_def)
next
  let ?rs = "get_requirement_statuses tos rt"
  have "\<forall>r \<in> set ids.
          (endswith (status_of ?rs r) ''Verified'' \<and> \<not> endswith (status_of ?rs r) ''Failed''
             \<and> status_of ?rs r \<noteq> not_started)
        \<or> (\<not> endswith (status_of ?rs r) ''Verified'' \<and> endswith (status_of ?rs r) ''Failed''
             \<and> status_of ?rs r \<noteq> not_started)
        \<or> (\<not> endswith (status_of ?rs r) ''Verified'' \<and> \<not> endswith (status_of ?rs r) ''Failed''
             \<and> status_of ?rs r = not_started)"
  proof
    fix r
    from status_of_cases [of tos rt r] endswith_statuses
    show "(endswith (status_of ?rs r) ''Verified'' \<and> \<not> endswith (status_of ?rs r) ''Failed''
             \<and> status_of ?rs r \<noteq> not_started)
        \<or> (\<not> endswith (status_of ?rs r) ''Verified'' \<and> endswith (status_of ?rs r) ''Failed''
             \<and> status_of ?rs r \<noteq> not_started)
        \<or> (\<not> endswith (status_of ?rs r) ''Verified'' \<and> \<not> endswith (status_of ?rs r) ''Failed''
             \<and> status_of ?rs r = not_started)"
      by metis
  qed
  then have "count_if (\<lambda>r. endswith (status_of ?rs r) ''Verified'') ids
           + count_if (\<lambda>r. endswith (status_of ?rs r) ''Failed'') ids
           + count_if (\<lambda>r. status_of ?rs r = not_started) ids = int (length ids)"
    by (intro count_partition) blast
  then show "case requirement_counts ?rs ids of
        (verified, req_failed, pending, total_reqs) \<Rightarrow>
          verified + req_failed + pending = total_reqs
          \<and> pending = count_if (\<lambda>r. status_of ?rs r = not_started) ids
          \<and> total_reqs = int (length ids)"
    by (simp add: requirement_counts_def Let_def)
qed

theorem status_map_never_stores_not_started_witness:
  "get_requirement_statuses [(''t1'', ''passed''), (''t2'', ''failed'')]
        [(''REQ-A-001'', [''t1'', ''t2'']), (''REQ-B-002'', [''t1'']), (''REQ-C-003'', [''t3''])]
     = [(''REQ-A-001'', ''[x] Failed''), (''REQ-B-002'', ''[x] Verified'')]
   \<and> requirement_counts (get_requirement_statuses [(''t1'', ''passed''), (''t2'', ''failed'')]
        [(''REQ-A-001'', [''t1'', ''t2'']), (''REQ-B-002'', [''t1'']), (''REQ-C-003'', [''t3''])])
        [''REQ-A-001'', ''REQ-B-002'', ''REQ-C-003'', ''REQ-D-004''] = (1, 1, 2, 4)"
  using status_map_never_stores_not_started [of
      "[(''t1'', ''passed''), (''t2'', ''failed'')]"
      "[(''REQ-A-001'', [''t1'', ''t2'']), (''REQ-B-002'', [''t1'']), (''REQ-C-003'', [''t3''])]"
      "''REQ-C-003''" "[''REQ-A-001'', ''REQ-B-002'', ''REQ-C-003'', ''REQ-D-004'']"]
  by (simp add: get_requirement_statuses_def resolve_step_def outcomes_of_def dict_get_def
      requirement_counts_def status_of_def count_if_def endswith_def not_started_def Let_def)

section \<open>Metadata resolution\<close>

lemma read_doc_author_no_file:
  "read_doc_author_from_srvp U Missing = None"
  "read_doc_author_from_srvp U Unreadable = None"
  by (simp_all add: read_doc_author_from_srvp_def)

lemma example_authors:
  "resolve_author (example_world\<lparr>RELEASE_AUTHOR := Some ''Release Manager''\<rparr>) = ''Release Manager''"
  "read_doc_author_from_srvp (unicode example_world) (srvp_file example_world) = Some ''Jane Doe''"
  "resolve_author (example_world\<lparr>GITHUB_ACTOR := None\<rparr>) = ''Jane Doe''"
  "resolve_author (example_world\<lparr>GITHUB_ACTOR := None, srvp_file := Unreadable\<rparr>) = ''Dev''"
  "resolve_author (example_world\<lparr>GITHUB_ACTOR := Some [], srvp_file := Unreadable,
       git_user_name := CmdFailed\<rparr>) = ''Unknown''"
  by code_simp+

text \<open>
  Claim C7. A value counts as supplied or available when it is set and not empty, which
  is what Python's \<^verbatim>\<open>or\<close> tests. An author override that is supplied is the resolved
  author, whatever the other sources hold. When neither the override, nor the CI actor,
  nor the author of the plan document, nor the \<^verbatim>\<open>git\<close> identity is available, the
  author is \<^verbatim>\<open>Unknown\<close>. A step that fails does not fail the resolution, which goes on
  to the next step: with the plan document unreadable or absent the \<^verbatim>\<open>git\<close> identity
  decides, with the \<^verbatim>\<open>git\<close> query failing the sentinel is used, and the resolved
  author is never empty; likewise a failing import of the version gives \<^verbatim>\<open>0.0.0\<close>
  and a failing \<^verbatim>\<open>git log\<close> gives the current date.
\<close>

theorem author_resolution_chain:
  "(RELEASE_AUTHOR w = Some a \<and> a \<noteq> [] \<longrightarrow> resolve_author w = a)
   \<and> (\<not> truthy (RELEASE_AUTHOR w) \<and> \<not> truthy (GITHUB_ACTOR w)
        \<and> \<not> truthy (read_doc_author_from_srvp (unicode w) (srvp_file w))
        \<and> \<not> truthy (git_cmd_output (unicode w) (git_user_name w))
        \<longrightarrow> resolve_author w = ''Unknown'')
   \<and> (\<not> truthy (RELEASE_AUTHOR w) \<and> \<not> truthy (GITHUB_ACTOR w)
        \<and> (srvp_file w = Unreadable \<or> srvp_file w = Missing)
        \<longrightarrow> resolve_author w =
              (case git_cmd_output (unicode w) (git_user_name w) of
                 None \<Rightarrow> ''Unknown''
               | Some name \<Rightarrow> if name \<noteq> [] then name else ''Unknown''))
   \<and> (\<not> truthy (RELEASE_AUTHOR w) \<and> \<not> truthy (GITHUB_ACTOR w)
        \<and> \<not> truthy (read_doc_author_from_srvp (unicode w) (srvp_file w))
        \<and> git_user_name w = CmdFailed
        \<longrightarrow> resolve_author w = ''Unknown'')
   \<and> resolve_author w \<noteq> []
   \<and> (core_version w = None \<longrightarrow> resolve_version w = ''0.0.0'')
   \<and> (\<not> truthy (RELEASE_DATE w) \<and> git_log_date w = CmdFailed \<longrightarrow> resolve_date w = today w)"
  by (cases "RELEASE_AUTHOR w"; cases "GITHUB_ACTOR w";
      cases "read_doc_author_from_srvp (unicode w) (srvp_file w)"; cases "git_cmd_output (unicode w) (git_user_name w)")
     (auto simp: resolve_author_def resolve_version_def resolve_date_def py_or_def
        read_doc_author_no_file Let_def split: option.splits)

theorem author_resolution_chain_witness:
  "resolve_author (example_world\<lparr>RELEASE_AUTHOR := Some ''Release Manager''\<rparr>) = ''Release Manager''
   \<and> resolve_author (example_world\<lparr>GITHUB_ACTOR := None, srvp_file := Unreadable\<rparr>) = ''Dev''
   \<and> resolve_author (example_world\<lparr>GITHUB_ACTOR := None, srvp_file := Missing,
         git_user_name := CmdFailed\<rparr>) = ''Unknown''
   \<and> resolve_version (example_world\<lparr>core_version := None\<rparr>) = ''0.0.0''
   \<and> resolve_date (example_world\<lparr>RELEASE_DATE := None\<rparr>) = ''2025-09-17''"
  using author_resolution_chain [of "example_world\<lparr>RELEASE_AUTHOR := Some ''Release Manager''\<rparr>"
      "''Release Manager''"]
    author_resolution_chain [of "example_world\<lparr>GITHUB_ACTOR := None, srvp_file := Unreadable\<rparr>"]
    author_resolution_chain [of "example_world\<lparr>GITHUB_ACTOR := None, srvp_file := Missing,
         git_user_name := CmdFailed\<rparr>"]
    author_resolution_chain [of "example_world\<lparr>core_version := None\<rparr>"]
    author_resolution_chain [of "example_world\<lparr>RELEASE_DATE := None\<rparr>"]
  by (simp add: example_world_def ascii_db_def strip_def white_def is_space_def
      utf8_length_def nl_def)

section \<open>The association map\<close>

lemma dict_get_dict_set:
  "dict_get (dict_set d k v) k' dflt = (if k' = k then v else dict_get d k' dflt)"
  by (simp add: dict_get_def map_of_dict_set)

lemma dict_get_add_test:
  "dict_get (add_test d r t) r' [] = (if r' = r then dict_get d r [] @ [t] else dict_get d r' [])"
  by (auto simp: add_test_def Let_def dict_get_dict_set) (simp add: dict_get_def)

lemma is_dict_add_test: "is_dict d \<Longrightarrow> is_dict (add_test d r t)"
  by (simp add: add_test_def Let_def is_dict_dict_set)

lemma dict_get_fold_add_test:
  "dict_get (fold (\<lambda>req_id d. add_test d req_id t) ids d) r []
     = dict_get d r [] @ replicate (count_list ids r) t"
proof (induction ids arbitrary: d)
  case Nil
  then show ?case by simp
next
  case (Cons x ids)
  show ?case
    by (simp add: Cons.IH dict_get_add_test replicate_append_same)
qed

lemma is_dict_fold_add_test:
  "is_dict d \<Longrightarrow> is_dict (fold (\<lambda>req_id d. add_test d req_id t) ids d)"
  by (induction ids arbitrary: d) (simp_all add: is_dict_add_test)

lemma dict_get_fold_add_annotation:
  "dict_get (fold add_annotation anns d) r [] = dict_get d r [] @ occurrences r anns"
proof (induction anns arbitrary: d)
  case Nil
  then show ?case by (simp add: occurrences_def)
next
  case (Cons a anns)
  have "dict_get (add_annotation a d) r []
          = dict_get d r [] @ replicate (count_list (snd a) r) (fst a)"
    by (simp add: add_annotation_def dict_get_fold_add_test)
  moreover have "fold add_annotation (a # anns) d = fold add_annotation anns (add_annotation a d)"
    by simp
  ultimately show ?case
    by (simp only: Cons.IH) (simp add: occurrences_def)
qed

lemma is_dict_fold_add_annotation:
  "is_dict d \<Longrightarrow> is_dict (fold add_annotation anns d)"
  by (induction anns arbitrary: d) (simp_all add: add_annotation_def is_dict_fold_add_test)

lemma occurrences_append:
  "occurrences r (xs @ ys) = occurrences r xs @ occurrences r ys"
  by (simp add: occurrences_def)

lemma scan_files_result:
  "scan_files U files d = Inr d' \<Longrightarrow>
     dict_get d' r [] = dict_get d r [] @ occurrences r (concat (map (file_annotations U) files))
     \<and> (is_dict d \<longrightarrow> is_dict d')"
proof (induction files arbitrary: d)
  case Nil
  then show ?case by (simp add: occurrences_def)
next
  case (Cons entry files)
  obtain name f where entry: "entry = (name, f)" by (cases entry)
  from Cons.prems obtain content where rd: "read_text f = Inr content"
    and rest: "scan_files U files (fold add_annotation (annotations U name content) d) = Inr d'"
    by (auto simp: entry split: sum.splits)
  from Cons.IH [OF rest] rd show ?case
    by (simp add: entry file_annotations_def dict_get_fold_add_annotation occurrences_append
        is_dict_fold_add_annotation)
qed

lemma keys_dict_set_set: "fst ` set (dict_set d k v) = insert k (fst ` set d)"
proof -
  have "set (map fst (dict_set d k v)) = insert k (set (map fst d))"
    unfolding keys_dict_set by auto
  then show ?thesis
    by simp
qed

lemma keys_add_test: "fst ` set (add_test d r t) = insert r (fst ` set d)"
  by (simp add: add_test_def Let_def keys_dict_set_set)

lemma keys_fold_add_test:
  "fst ` set (fold (\<lambda>r d. add_test d r t) rs d) = set rs \<union> fst ` set d"
  by (induction rs arbitrary: d) (auto simp: keys_add_test)

lemma keys_fold_add_annotation:
  "fst ` set (fold add_annotation anns d) = (\<Union>a \<in> set anns. set (snd a)) \<union> fst ` set d"
  by (induction anns arbitrary: d) (auto simp: add_annotation_def keys_fold_add_test)

lemma scan_files_keys:
  "scan_files U files d = Inr d' \<Longrightarrow>
     fst ` set d' = fst ` set d
        \<union> (\<Union>a \<in> set (concat (map (file_annotations U) files)). set (snd a))"
proof (induction files arbitrary: d)
  case Nil
  then show ?case by simp
next
  case (Cons entry files)
  obtain name f where entry: "entry = (name, f)" by (cases entry)
  from Cons.prems obtain content where rd: "read_text f = Inr content"
    and rest: "scan_files U files (fold add_annotation (annotations U name content) d) = Inr d'"
    by (auto simp: entry split: sum.splits)
  from Cons.IH [OF rest] rd show ?case
    by (auto simp: entry file_annotations_def keys_fold_add_annotation)
qed

lemma association_keys:
  assumes "extract_req_ids_from_docstrings U entries = Inr req_to_tests"
  shows "set (map fst req_to_tests)
           = (\<Union>a \<in> set (concat (map (file_annotations U)
                  (filter (\<lambda>(name, f). glob_test name) entries))). set (snd a))"
  using scan_files_keys [OF assms [unfolded extract_req_ids_from_docstrings_def]] by simp

lemma example_entries_result:
  "extract_req_ids_from_docstrings U example_entries
     = Inr [(''REQ-A-001'', [''tests/test_b.py::test_y'', ''tests/test_a.py::test_x'',
                            ''tests/test_a.py::test_x'']),
            (''REQ-B-002'', [''tests/test_a.py::test_x''])]"
  by code_simp

lemma duplicate_pair_any_database:
  "extract_req_ids_from_docstrings U
     [(''test_a.py'', Content (''def test_x():'' @ nl @ ''    '' @ triple_quote
                       @ ''REQ-A-001 and REQ-A-001'' @ triple_quote @ nl))]
   = Inr [(''REQ-A-001'', [''tests/test_a.py::test_x'', ''tests/test_a.py::test_x''])]"
  by code_simp

text \<open>
  Claim C6 says that the list of test ids of a requirement never repeats a test id,
  also when the requirement id occurs more than once in one documentation block. The
  loop appends the test id once for every id that \<^verbatim>\<open>re.findall\<close> returns, without a
  membership test, and \<^verbatim>\<open>re.findall\<close> returns an id as often as it occurs: one block
  that names \<^verbatim>\<open>REQ-A-001\<close> twice gives the pair twice. The file is ASCII, so the
  result is the same with every Unicode database.
\<close>

theorem duplicate_pair_counterexample:
  "extract_req_ids_from_docstrings ascii_db
     [(''test_a.py'', Content (''def test_x():'' @ nl @ ''    '' @ triple_quote
                       @ ''REQ-A-001 and REQ-A-001'' @ triple_quote @ nl))]
   = Inr [(''REQ-A-001'', [''tests/test_a.py::test_x'', ''tests/test_a.py::test_x''])]"
  by code_simp

text \<open>
  Claim C6, as amended. The association map is a dictionary (no requirement id is a
  key twice), and the list of a requirement id holds one test id for every occurrence
  of the requirement id in the scanned blocks, in the order of the files and of the
  matches in a file; its length is the number of those occurrences. So a test id is
  repeated as often as the requirement id occurs in the block of that test.
\<close>

theorem association_lists_every_occurrence:
  assumes "extract_req_ids_from_docstrings U entries = Inr req_to_tests"
  shows "is_dict req_to_tests
     \<and> dict_get req_to_tests req_id []
         = occurrences req_id
             (concat (map (file_annotations U) (filter (\<lambda>(name, f). glob_test name) entries)))
     \<and> length (dict_get req_to_tests req_id [])
         = sum_list (map (\<lambda>a. count_list (snd a) req_id)
             (concat (map (file_annotations U) (filter (\<lambda>(name, f). glob_test name) entries))))"
proof -
  from scan_files_result [OF assms [unfolded extract_req_ids_from_docstrings_def], of req_id]
  have d: "is_dict req_to_tests"
    and l: "dict_get req_to_tests req_id []
         = occurrences req_id
             (concat (map (file_annotations U) (filter (\<lambda>(name, f). glob_test name) entries)))"
    by (simp_all add: dict_get_def is_dict_def)
  have "length (occurrences req_id anns) = sum_list (map (\<lambda>a. count_list (snd a) req_id) anns)"
    for anns
    by (simp add: occurrences_def length_concat comp_def)
  with d l show ?thesis
    by simp
qed

theorem association_lists_every_occurrence_witness:
  "extract_req_ids_from_docstrings ascii_db example_entries
     = Inr [(''REQ-A-001'', [''tests/test_b.py::test_y'', ''tests/test_a.py::test_x'',
                            ''tests/test_a.py::test_x'']),
            (''REQ-B-002'', [''tests/test_a.py::test_x''])]
   \<and> occurrences ''REQ-A-001''
         (concat (map (file_annotations ascii_db) (filter (\<lambda>(name, f). glob_test name) example_entries)))
       = [''tests/test_b.py::test_y'', ''tests/test_a.py::test_x'', ''tests/test_a.py::test_x'']
   \<and> sum_list (map (\<lambda>a. count_list (snd a) ''REQ-A-001'')
         (concat (map (file_annotations ascii_db) (filter (\<lambda>(name, f). glob_test name) example_entries))))
       = 3"
  using association_lists_every_occurrence [OF example_entries_result [of ascii_db],
      of "''REQ-A-001''"]
  by (simp add: example_entries_result dict_get_def)

text \<open>
  Claim C5. The ids of a test are to be taken from the documentation block attached to
  its declaration only, and a test without such a block is to have none. The comment
  above the pattern says that it allows whitespace and newlines between declaration
  and docstring, but the pattern allows any text there (\<^verbatim>\<open>[\s\S]*?\<close>), up to the next
  triple quote in the file. On the first input below \<^verbatim>\<open>test_a\<close> has a body and no
  docstring, and the code gives it the id of the docstring of \<^verbatim>\<open>test_b\<close>, which gets
  none; on the second it gives \<^verbatim>\<open>test_a\<close> the id of a string literal of its body.
  Both files are ASCII, and the result is the same with every Unicode database \<open>U\<close>.
\<close>

theorem undocumented_test_takes_next_docstring:
  "extract_req_ids_from_docstrings U [(''test_x.py'',
       Content (''def test_a():'' @ nl @ ''    assert 1'' @ nl
                @ ''def test_b():'' @ nl @ ''    '' @ triple_quote @ ''REQ-A-001''
                @ triple_quote @ nl))]
     = Inr [(''REQ-A-001'', [''tests/test_x.py::test_a''])]
   \<and> extract_req_ids_from_docstrings U [(''test_x.py'',
       Content (''def test_a():'' @ nl @ ''    s = '' @ triple_quote @ ''REQ-B-002''
                @ triple_quote @ nl))]
     = Inr [(''REQ-B-002'', [''tests/test_x.py::test_a''])]"
  by code_simp

section \<open>Extraction and the requirement grammar\<close>

lemma multibyte_head:
  "multibyte w \<Longrightarrow> w \<noteq> [] \<and> \<not> hd w < CHR 0x80 \<and> length w = utf8_length (hd w)"
  by (auto simp: multibyte_def utf8_length_def split: list.splits if_splits)

lemma multibyte_bytes: "multibyte w \<Longrightarrow> c \<in> set w \<Longrightarrow> CHR 0x80 \<le> c"
  by (auto simp: multibyte_def utf8_length_def utf8_tail_def list_all_iff
      split: list.splits if_splits)

lemma rmatch_sound:
  "st' \<in> set (rmatch r st) \<Longrightarrow> \<exists>w \<in> lang r. rest_of st = w @ rest_of st'"
proof (induction r st arbitrary: st' rule: rmatch.induct)
  case (1 P p s g)
  then show ?case by (auto simp: rmatch.simps(1) split: list.splits if_splits)
next
  case (2 w p s g)
  then have t: "take (length w) s = w" and st': "rest_of st' = drop (length w) s"
    by (auto simp: rmatch.simps(2) split: if_splits)
  have "s = take (length w) s @ drop (length w) s"
    by simp
  with t have "s = w @ drop (length w) s"
    by metis
  with st' show ?case
    by simp
next
  case (3 a b st)
  from "3.prems" obtain st1 where s1: "st1 \<in> set (rmatch a st)" and s2: "st' \<in> set (rmatch b st1)"
    by (auto simp: rmatch.simps(3))
  from "3.IH"(1) [OF s1] obtain u where u: "u \<in> lang a" "rest_of st = u @ rest_of st1"
    by blast
  from "3.IH"(2) [OF s1 s2] obtain v where v: "v \<in> lang b" "rest_of st1 = v @ rest_of st'"
    by blast
  from u v show ?case
    by auto
next
  case (4 a st)
  show ?case
  proof (cases "st' = st")
    case True
    then show ?thesis by (auto intro: star.star_empty)
  next
    case False
    with "4.prems" [unfolded rmatch.simps(4) [of a st]]
    obtain st1 where s1: "st1 \<in> set (rmatch a st)"
      and s2': "st' \<in> set (if length (rest_of st1) < length (rest_of st)
                            then rmatch (Star a) st1 else [])"
      by auto
    then have lt: "length (rest_of st1) < length (rest_of st)"
      and s2: "st' \<in> set (rmatch (Star a) st1)"
      by (simp_all split: if_splits)
    from "4.IH"(1) [OF s1] obtain u where u: "u \<in> lang a" "rest_of st = u @ rest_of st1"
      by blast
    from "4.IH"(2) [OF s1 lt s2] obtain v where v: "v \<in> star (lang a)" "rest_of st1 = v @ rest_of st'"
      by auto
    from u v have "u @ v \<in> star (lang a)" "rest_of st = (u @ v) @ rest_of st'"
      by (auto intro: star.star_step)
    then show ?thesis
      by (metis lang.simps(4))
  qed
next
  case (5 a st)
  show ?case
  proof (cases "st' = st")
    case True
    then show ?thesis by (auto intro: star.star_empty)
  next
    case False
    with "5.prems" [unfolded rmatch.simps(5) [of a st]]
    obtain st1 where s1: "st1 \<in> set (rmatch a st)"
      and s2': "st' \<in> set (if length (rest_of st1) < length (rest_of st)
                            then rmatch (LazyStar a) st1 else [])"
      by auto
    then have lt: "length (rest_of st1) < length (rest_of st)"
      and s2: "st' \<in> set (rmatch (LazyStar a) st1)"
      by (simp_all split: if_splits)
    from "5.IH"(1) [OF s1] obtain u where u: "u \<in> lang a" "rest_of st = u @ rest_of st1"
      by blast
    from "5.IH"(2) [OF s1 lt s2] obtain v where v: "v \<in> star (lang a)" "rest_of st1 = v @ rest_of st'"
      by auto
    from u v have "u @ v \<in> star (lang a)" "rest_of st = (u @ v) @ rest_of st'"
      by (auto intro: star.star_step)
    then show ?thesis
      by (metis lang.simps(5))
  qed
next
  case (6 n a p s g)
  from "6.prems" obtain st1 where "st1 \<in> set (rmatch a (p, s, g))" "rest_of st' = rest_of st1"
    by (auto simp: rmatch.simps(6))
  with "6.IH" show ?case
    by fastforce
next
  case (7 p s g)
  then show ?case by (auto simp: rmatch.simps(7) split: if_splits)
next
  case (8 p s g)
  then show ?case by (auto simp: rmatch.simps(8) split: if_splits)
next
  case (9 P Q p s g)
  show ?case
  proof (cases s)
    case Nil
    with "9.prems" show ?thesis by (simp add: rmatch.simps(9))
  next
    case (Cons c s')
    show ?thesis
    proof (cases "c < CHR 0x80")
      case True
      with "9.prems" Cons show ?thesis
        by (auto simp: rmatch.simps(9) split: if_splits)
    next
      case False
      let ?w = "take (utf8_length c) s"
      from "9.prems" Cons False have m: "multibyte ?w" "Q ?w"
        and st': "rest_of st' = drop (utf8_length c) s"
        by (auto simp: rmatch.simps(9) Let_def split: if_splits)
      from m have "?w \<in> lang (UCls P Q)"
        by simp
      moreover from st' have "rest_of (p, s, g) = ?w @ rest_of st'"
        by simp
      ultimately show ?thesis
        by blast
    qed
  qed
qed

lemma rmatch_star_self:
  "st \<in> set (rmatch (Star a) st)" "st \<in> set (rmatch (LazyStar a) st)"
  by (subst rmatch.simps, simp)+

lemma rmatch_star_step:
  assumes "st1 \<in> set (rmatch a st)"
    and "length (rest_of st1) < length (rest_of st)"
  shows "st' \<in> set (rmatch (Star a) st1) \<Longrightarrow> st' \<in> set (rmatch (Star a) st)"
    and "st' \<in> set (rmatch (LazyStar a) st1) \<Longrightarrow> st' \<in> set (rmatch (LazyStar a) st)"
proof -
  assume m: "st' \<in> set (rmatch (Star a) st1)"
  let ?F = "\<lambda>x. if length (rest_of x) < length (rest_of st) then rmatch (Star a) x else []"
  from m assms(2) have "st' \<in> set (?F st1)"
    by simp
  with assms(1) have "\<exists>x \<in> set (rmatch a st). st' \<in> set (?F x)"
    by blast
  then have "st' \<in> set (concat (map ?F (rmatch a st)) @ [st])"
    by auto
  then show "st' \<in> set (rmatch (Star a) st)"
    by (simp only: rmatch.simps(4) [of a st])
next
  assume m: "st' \<in> set (rmatch (LazyStar a) st1)"
  let ?F = "\<lambda>x. if length (rest_of x) < length (rest_of st) then rmatch (LazyStar a) x else []"
  from m assms(2) have "st' \<in> set (?F st1)"
    by simp
  with assms(1) have "\<exists>x \<in> set (rmatch a st). st' \<in> set (?F x)"
    by blast
  then have "st' \<in> set (st # concat (map ?F (rmatch a st)))"
    by auto
  then show "st' \<in> set (rmatch (LazyStar a) st)"
    by (simp only: rmatch.simps(5) [of a st])
qed

lemma rmatch_star_complete:
  assumes a: "\<And>w p g s'. w \<in> lang a \<Longrightarrow> \<exists>p' g'. (p', s', g') \<in> set (rmatch a (p, w @ s', g))"
    and w: "w \<in> star (lang a)"
  shows "(\<exists>p' g'. (p', s', g') \<in> set (rmatch (Star a) (p, w @ s', g)))
       \<and> (\<exists>p' g'. (p', s', g') \<in> set (rmatch (LazyStar a) (p, w @ s', g)))"
  using w
proof (induction arbitrary: p g rule: star.induct)
  case star_empty
  from rmatch_star_self [of "(p, s', g)" a] show ?case
    by auto
next
  case (star_step u v)
  show ?case
  proof (cases "u = []")
    case True
    with star_step.IH [of p g] show ?thesis by simp
  next
    case False
    from a [OF star_step.hyps(1), of "v @ s'" p g]
    obtain p1 g1 where m1: "(p1, v @ s', g1) \<in> set (rmatch a (p, (u @ v) @ s', g))"
      by auto
    from False have lt: "length (rest_of (p1, v @ s', g1)) < length (rest_of (p, (u @ v) @ s', g))"
      by simp
    from star_step.IH [of p1 g1] obtain p2 g2 p3 g3
      where m2: "(p2, s', g2) \<in> set (rmatch (Star a) (p1, v @ s', g1))"
        and m3: "(p3, s', g3) \<in> set (rmatch (LazyStar a) (p1, v @ s', g1))"
      by blast
    from rmatch_star_step(1) [OF m1 lt m2] rmatch_star_step(2) [OF m1 lt m3]
    show ?thesis
      by blast
  qed
qed

lemma rmatch_complete:
  "plain r \<Longrightarrow> w \<in> lang r \<Longrightarrow> \<exists>p' g'. (p', s', g') \<in> set (rmatch r (p, w @ s', g))"
proof (induction r arbitrary: w p g s')
  case (Cls P)
  then show ?case by (auto simp: rmatch.simps(1))
next
  case (Str x)
  then show ?case by (simp add: rmatch.simps(2))
next
  case (Seq a b)
  from Seq.prems obtain u v where w: "w = u @ v" and u: "u \<in> lang a" and v: "v \<in> lang b"
    and pa: "plain a" and pb: "plain b"
    by auto
  from Seq.IH(1) [OF pa u, of "v @ s'" p g]
  obtain p1 g1 where m1: "(p1, v @ s', g1) \<in> set (rmatch a (p, u @ v @ s', g))"
    by auto
  from Seq.IH(2) [OF pb v, of s' p1 g1]
  obtain p2 g2 where m2: "(p2, s', g2) \<in> set (rmatch b (p1, v @ s', g1))"
    by auto
  from m1 m2 have "(p2, s', g2) \<in> set (rmatch (Seq a b) (p, w @ s', g))"
    by (auto simp: rmatch.simps(3) w)
  then show ?case by blast
next
  case (Star a)
  from Star.prems have pa: "plain a" and w: "w \<in> star (lang a)" by simp_all
  from rmatch_star_complete [OF Star.IH [OF pa] w, of s' p g] show ?case
    by blast
next
  case (LazyStar a)
  from LazyStar.prems have pa: "plain a" and w: "w \<in> star (lang a)" by simp_all
  from rmatch_star_complete [OF LazyStar.IH [OF pa] w, of s' p g] show ?case
    by blast
next
  case (Group n a)
  from Group.prems have "plain a" "w \<in> lang a" by simp_all
  from Group.IH [OF this, of s' p g]
  obtain p1 g1 where "(p1, s', g1) \<in> set (rmatch a (p, w @ s', g))"
    by auto
  then have "(p1, s', (n, take (length (w @ s') - length s') (w @ s')) # g1)
               \<in> set (rmatch (Group n a) (p, w @ s', g))"
    by (force simp: rmatch.simps(6))
  then show ?case by blast
next
  case Bol
  then show ?case by simp
next
  case Eol
  then show ?case by simp
next
  case (UCls P Q)
  from UCls.prems(2) consider c where "w = [c]" "c < CHR 0x80" "P c" | "multibyte w" "Q w"
    by auto
  then show ?case
  proof cases
    case 1
    then show ?thesis by (auto simp: rmatch.simps(9))
  next
    case 2
    from multibyte_head [OF 2(1)] obtain c cs where w: "w = c # cs"
      and nc: "\<not> c < CHR 0x80" and n: "length w = utf8_length c"
      by (cases w) auto
    from n have "take (utf8_length c) (w @ s') = w" "drop (utf8_length c) (w @ s') = s'"
      by simp_all
    moreover have "w @ s' = c # cs @ s'"
      by (simp add: w)
    ultimately have "rmatch (UCls P Q) (p, w @ s', g) = [(Some (last w), s', g)]"
      using 2 nc by (simp add: rmatch.simps(9) Let_def del: take_Cons' drop_Cons')
    then show ?thesis
      by auto
  qed
qed

lemma upper_not_digit: "upper c \<Longrightarrow> \<not> digit c"
  by (simp add: upper_def digit_def less_eq_char_def)

lemma dash_not_upper: "\<not> upper (CHR ''-'')"
  by (simp add: upper_def less_eq_char_def)

lemma dash_not_digit: "\<not> digit (CHR ''-'')"
  by (simp add: digit_def less_eq_char_def)

lemma star_cls: "w \<in> star (lang (Cls P)) \<longleftrightarrow> list_all P w"
proof
  assume "w \<in> star (lang (Cls P))"
  then show "list_all P w"
    by (induction rule: star.induct) auto
next
  assume "list_all P w"
  then show "w \<in> star (lang (Cls P))"
  proof (induction w)
    case Nil
    show ?case by (rule star.star_empty)
  next
    case (Cons c w)
    then have "[c] \<in> lang (Cls P)" "w \<in> star (lang (Cls P))"
      by simp_all
    then have "[c] @ w \<in> star (lang (Cls P))"
      by (rule star.star_step)
    then show ?case by simp
  qed
qed

lemma lang_plus_cls: "w \<in> lang (Plus (Cls P)) \<longleftrightarrow> w \<noteq> [] \<and> list_all P w"
proof -
  have "w \<in> lang (Plus (Cls P)) \<longleftrightarrow> (\<exists>c v. w = c # v \<and> P c \<and> v \<in> star (lang (Cls P)))"
  proof
    assume "w \<in> lang (Plus (Cls P))"
    then show "\<exists>c v. w = c # v \<and> P c \<and> v \<in> star (lang (Cls P))"
      by (auto simp: Plus_def)
  next
    assume "\<exists>c v. w = c # v \<and> P c \<and> v \<in> star (lang (Cls P))"
    then obtain c v where "w = [c] @ v" "[c] \<in> lang (Cls P)" "v \<in> star (lang (Cls P))"
      by auto
    then show "w \<in> lang (Plus (Cls P))"
      unfolding Plus_def lang.simps(3,4) by blast
  qed
  also have "\<dots> \<longleftrightarrow> (\<exists>c v. w = c # v \<and> P c \<and> list_all P v)"
    by (simp only: star_cls)
  also have "\<dots> \<longleftrightarrow> w \<noteq> [] \<and> list_all P w"
    by (cases w) auto
  finally show ?thesis .
qed

lemma lang_group:
  "w \<in> lang (Seq (Plus (Cls upper)) (Str ''-''))
     \<longleftrightarrow> (\<exists>seg. seg \<noteq> [] \<and> list_all upper seg \<and> w = seg @ ''-'')"
proof -
  have "w \<in> lang (Seq (Plus (Cls upper)) (Str ''-''))
          \<longleftrightarrow> (\<exists>seg. seg \<in> lang (Plus (Cls upper)) \<and> w = seg @ ''-'')"
    by auto
  then show ?thesis
    by (simp only: lang_plus_cls) blast
qed

lemma is_groups_one:
  assumes "seg \<noteq> []" and "list_all upper seg"
  shows "is_groups (seg @ ''-'')"
    and "is_groups rest \<Longrightarrow> is_groups (seg @ ''-'' @ rest)"
proof -
  have tw: "takeWhile upper (seg @ CHR ''-'' # xs) = seg"
    and dw: "dropWhile upper (seg @ CHR ''-'' # xs) = CHR ''-'' # xs" for xs
    using assms(2) dash_not_upper
    by (simp_all add: takeWhile_append2 dropWhile_append2 list_all_iff)
  show "is_groups (seg @ ''-'')"
    using assms(1) tw [of "[]"] dw [of "[]"]
    by (subst is_groups.simps) (simp add: Let_def)
  assume "is_groups rest"
  then show "is_groups (seg @ ''-'' @ rest)"
    using assms(1) tw [of rest] dw [of rest]
    by (subst is_groups.simps) (simp add: Let_def)
qed

lemma is_groups_decompose:
  assumes "is_groups s"
  shows "\<exists>seg rest. s = seg @ ''-'' @ rest \<and> seg \<noteq> [] \<and> list_all upper seg
           \<and> (rest = [] \<or> is_groups rest)"
proof -
  let ?seg = "takeWhile upper s"
  from assms obtain rest where seg: "?seg \<noteq> []" and dw: "dropWhile upper s = CHR ''-'' # rest"
    and rest: "rest = [] \<or> is_groups rest"
    by (subst (asm) is_groups.simps) (auto simp: Let_def split: list.splits)
  have "s = ?seg @ dropWhile upper s"
    by simp
  with dw have "s = ?seg @ ''-'' @ rest"
    by simp
  moreover have "list_all upper ?seg"
    by (auto simp: list_all_iff dest: set_takeWhileD)
  ultimately show ?thesis
    using seg rest by blast
qed

lemma lang_Plus: "lang (Plus r) = {u @ v | u v. u \<in> lang r \<and> v \<in> star (lang r)}"
  by (simp add: Plus_def)

lemma is_groups_lang:
  "is_groups s \<Longrightarrow> s \<in> lang (Plus (Seq (Plus (Cls upper)) (Str ''-'')))"
proof (induction "length s" arbitrary: s rule: less_induct)
  case less
  let ?G = "Seq (Plus (Cls upper)) (Str ''-'')"
  from is_groups_decompose [OF less.prems]
  obtain seg rest where s: "s = seg @ ''-'' @ rest" and seg: "seg \<noteq> []" "list_all upper seg"
    and rest: "rest = [] \<or> is_groups rest"
    by blast
  from seg have u: "seg @ ''-'' \<in> lang ?G"
    by (subst lang_group) blast
  have "rest \<in> star (lang ?G)"
  proof (cases "rest = []")
    case True
    then show ?thesis by (simp add: star.star_empty)
  next
    case False
    with rest have "is_groups rest" by simp
    moreover have "length rest < length s" by (simp add: s)
    ultimately have "rest \<in> lang (Plus ?G)"
      by (rule less.hyps [rotated])
    then obtain a b where "rest = a @ b" "a \<in> lang ?G" "b \<in> star (lang ?G)"
      unfolding lang_Plus by blast
    then show ?thesis
      by (auto intro: star.star_step)
  qed
  with u have "(seg @ ''-'') @ rest \<in> lang (Plus ?G)"
    unfolding lang_Plus by blast
  then show ?case
    by (simp add: s)
qed

lemma lang_is_groups:
  assumes "s \<in> lang (Plus (Seq (Plus (Cls upper)) (Str ''-'')))"
  shows "is_groups s"
proof -
  let ?G = "Seq (Plus (Cls upper)) (Str ''-'')"
  from assms obtain u v where s: "s = u @ v" and u: "u \<in> lang ?G" and v: "v \<in> star (lang ?G)"
    unfolding lang_Plus by blast
  from v u have "is_groups (u @ v)"
  proof (induction arbitrary: u rule: star.induct)
    case star_empty
    from star_empty obtain seg where "seg \<noteq> []" "list_all upper seg" "u = seg @ ''-''"
      by (subst (asm) lang_group) blast
    then show ?case
      using is_groups_one(1) [of seg] by simp
  next
    case (star_step a b)
    from star_step.prems obtain seg where seg: "seg \<noteq> []" "list_all upper seg" "u = seg @ ''-''"
      by (subst (asm) lang_group) blast
    from star_step.IH [OF star_step.hyps(1)] have "is_groups (a @ b)" .
    from is_groups_one(2) [OF seg(1,2) this] show ?case
      by (simp add: seg(3))
  qed
  then show ?thesis by (simp add: s)
qed

lemma is_groups_group_char:
  "is_groups s \<Longrightarrow> list_all group_char s"
proof (induction "length s" arbitrary: s rule: less_induct)
  case less
  from is_groups_decompose [OF less.prems(1)]
  obtain seg rest where s: "s = seg @ ''-'' @ rest" and seg: "seg \<noteq> []" "list_all upper seg"
    and rest: "rest = [] \<or> is_groups rest"
    by blast
  have "list_all group_char rest"
  proof (cases "rest = []")
    case True
    then show ?thesis by simp
  next
    case False
    with rest have "is_groups rest" by simp
    moreover have "length rest < length s" by (simp add: s)
    ultimately show ?thesis
      using less.hyps by blast
  qed
  with seg(2) show ?case
    by (auto simp: s list_all_iff group_char_def)
qed

lemma takeWhile_run:
  assumes "list_all P G" and "T \<noteq> []" and "\<not> P (hd T)"
  shows "takeWhile P (G @ T) = G" and "dropWhile P (G @ T) = T"
  using assms by (cases T; simp add: takeWhile_append2 dropWhile_append2 list_all_iff)+

lemma lang_digit: "d \<in> lang (UCls digit (uni_decimal U)) \<longleftrightarrow> decimal_digit U d"
  by (cases d) (auto simp: decimal_digit_def dest: multibyte_head)

lemma decimal_digit_head:
  assumes "decimal_digit U d"
  shows "d \<noteq> []" and "\<not> group_char (hd d)" and "length d = utf8_length (hd d)"
proof -
  from assms obtain c cs where d: "d = c # cs"
    by (cases d) (simp_all add: decimal_digit_def)
  show "d \<noteq> []" by (simp add: d)
  show "\<not> group_char (hd d)"
  proof (cases "c < CHR 0x80")
    case True
    with assms have "digit c" by (simp add: decimal_digit_def d)
    then show ?thesis
      using upper_not_digit [of c] dash_not_digit by (auto simp: d group_char_def)
  next
    case False
    then show ?thesis
      by (auto simp: d group_char_def upper_def less_char_def less_eq_char_def)
  qed
  show "length d = utf8_length (hd d)"
  proof (cases "c < CHR 0x80")
    case True
    with assms show ?thesis by (simp add: decimal_digit_def d utf8_length_def)
  next
    case False
    with assms have "multibyte d" by (simp add: decimal_digit_def d)
    from multibyte_head [OF this] show ?thesis by simp
  qed
qed

lemma decimal_digit_bytes:
  "decimal_digit U d \<Longrightarrow> c \<in> set d \<Longrightarrow> digit c \<or> CHR 0x80 \<le> c"
  by (cases d) (auto simp: decimal_digit_def split: if_splits dest: multibyte_bytes)

lemma utf8_chars_digit:
  assumes "decimal_digit U d"
  shows "utf8_chars (d @ r) = d # utf8_chars r"
proof -
  from decimal_digit_head [OF assms] obtain c cs where d: "d = c # cs"
    and n: "length cs = utf8_length c - 1"
    by (cases d) auto
  then show ?thesis by simp
qed

lemma utf8_chars_one: "decimal_digit U d \<Longrightarrow> utf8_chars d = [d]"
  using utf8_chars_digit [of U d "[]"] by simp

lemma concat_utf8_chars: "concat (utf8_chars t) = t"
  by (induction t rule: utf8_chars.induct) simp_all

lemma utf8_chars_nil: "utf8_chars t = [] \<longleftrightarrow> t = []"
  by (cases t) simp_all

lemma three_digits_iff:
  "three_digits U t \<longleftrightarrow>
     (\<exists>d1 d2 d3. t = d1 @ d2 @ d3
        \<and> decimal_digit U d1 \<and> decimal_digit U d2 \<and> decimal_digit U d3)"
proof
  assume "three_digits U t"
  then obtain d1 d2 d3 where c: "utf8_chars t = [d1, d2, d3]"
    and d: "decimal_digit U d1" "decimal_digit U d2" "decimal_digit U d3"
    by (auto simp: three_digits_def split: list.splits)
  from concat_utf8_chars [of t] c have "t = d1 @ d2 @ d3"
    by simp
  with d show "\<exists>d1 d2 d3. t = d1 @ d2 @ d3
        \<and> decimal_digit U d1 \<and> decimal_digit U d2 \<and> decimal_digit U d3"
    by blast
next
  assume "\<exists>d1 d2 d3. t = d1 @ d2 @ d3
        \<and> decimal_digit U d1 \<and> decimal_digit U d2 \<and> decimal_digit U d3"
  then obtain d1 d2 d3 where t: "t = d1 @ d2 @ d3"
    and d: "decimal_digit U d1" "decimal_digit U d2" "decimal_digit U d3"
    by blast
  from d have "utf8_chars t = [d1, d2, d3]"
    by (simp add: t utf8_chars_digit utf8_chars_one)
  with d show "three_digits U t"
    by (simp add: three_digits_def)
qed

lemma is_req_id_decompose:
  "is_req_id U w \<longleftrightarrow>
     (\<exists>G d1 d2 d3. w = ''REQ-'' @ G @ d1 @ d2 @ d3 \<and> is_groups G
        \<and> decimal_digit U d1 \<and> decimal_digit U d2 \<and> decimal_digit U d3)"
proof
  assume id: "is_req_id U w"
  let ?G = "takeWhile group_char (drop 4 w)"
  let ?T = "dropWhile group_char (drop 4 w)"
  from id have t: "take 4 w = ''REQ-''" and g: "is_groups ?G" and d: "three_digits U ?T"
    by (simp_all add: is_req_id_def)
  from d obtain d1 d2 d3 where T: "?T = d1 @ d2 @ d3"
    and dd: "decimal_digit U d1" "decimal_digit U d2" "decimal_digit U d3"
    unfolding three_digits_iff by blast
  have "w = take 4 w @ ?G @ ?T"
    by simp
  then have "w = ''REQ-'' @ ?G @ d1 @ d2 @ d3"
    by (simp only: t T)
  with g dd show "\<exists>G d1 d2 d3. w = ''REQ-'' @ G @ d1 @ d2 @ d3 \<and> is_groups G
        \<and> decimal_digit U d1 \<and> decimal_digit U d2 \<and> decimal_digit U d3"
    by blast
next
  assume "\<exists>G d1 d2 d3. w = ''REQ-'' @ G @ d1 @ d2 @ d3 \<and> is_groups G
        \<and> decimal_digit U d1 \<and> decimal_digit U d2 \<and> decimal_digit U d3"
  then obtain G d1 d2 d3 where w: "w = ''REQ-'' @ G @ d1 @ d2 @ d3" and g: "is_groups G"
    and d: "decimal_digit U d1" "decimal_digit U d2" "decimal_digit U d3"
    by blast
  let ?T = "d1 @ d2 @ d3"
  from decimal_digit_head(1,2) [OF d(1)] have T: "?T \<noteq> []" "\<not> group_char (hd ?T)"
    by simp_all
  from takeWhile_run [OF is_groups_group_char [OF g] T]
  have "takeWhile group_char (G @ ?T) = G" "dropWhile group_char (G @ ?T) = ?T" .
  moreover from d have "three_digits U ?T"
    unfolding three_digits_iff by blast
  ultimately show "is_req_id U w"
    using g by (simp add: is_req_id_def w)
qed

lemma lang_SeqI: "u \<in> lang a \<Longrightarrow> v \<in> lang b \<Longrightarrow> u @ v \<in> lang (Seq a b)"
  by auto

lemma lang_rep3_digit:
  "v \<in> lang (Rep3 (UCls digit (uni_decimal U))) \<longleftrightarrow>
     (\<exists>d1 d2 d3. v = d1 @ d2 @ d3
        \<and> decimal_digit U d1 \<and> decimal_digit U d2 \<and> decimal_digit U d3)"
proof -
  let ?D = "UCls digit (uni_decimal U)"
  have "v \<in> lang (Rep3 ?D) \<longleftrightarrow>
          (\<exists>d1 d2 d3. v = d1 @ d2 @ d3 \<and> d1 \<in> lang ?D \<and> d2 \<in> lang ?D \<and> d3 \<in> lang ?D)"
    unfolding Rep3_def lang.simps(3) by blast
  then show ?thesis
    unfolding lang_digit .
qed

lemma lang_req_re: "w \<in> lang (req_re U) \<longleftrightarrow> is_req_id U w"
proof -
  let ?G = "Plus (Seq (Plus (Cls upper)) (Str ''-''))"
  let ?D = "Rep3 (UCls digit (uni_decimal U))"
  have "w \<in> lang (req_re U) \<longleftrightarrow>
          (\<exists>G v. w = ''REQ-'' @ G @ v \<and> G \<in> lang ?G \<and> v \<in> lang ?D)"
    unfolding req_re_def lang.simps(3) [of "Str ''REQ-''"] lang.simps(3) [of ?G] lang.simps(2)
    by blast
  also have "\<dots> \<longleftrightarrow> (\<exists>G d1 d2 d3. w = ''REQ-'' @ G @ d1 @ d2 @ d3 \<and> is_groups G
        \<and> decimal_digit U d1 \<and> decimal_digit U d2 \<and> decimal_digit U d3)"
    unfolding lang_rep3_digit using is_groups_lang lang_is_groups by blast
  finally show ?thesis
    unfolding is_req_id_decompose .
qed

lemma is_req_id_length: "is_req_id U w \<Longrightarrow> 7 \<le> length w"
proof -
  assume "is_req_id U w"
  then obtain G d1 d2 d3 where w: "w = ''REQ-'' @ G @ d1 @ d2 @ d3"
    and d: "decimal_digit U d1" "decimal_digit U d2" "decimal_digit U d3"
    unfolding is_req_id_decompose by blast
  from d have "1 \<le> length d1" "1 \<le> length d2" "1 \<le> length d3"
    by (simp_all add: decimal_digit_head(1) Suc_le_eq)
  then show ?thesis
    by (simp add: w)
qed

lemma is_req_id_bytes:
  assumes "is_req_id U w" and "c \<in> set w"
  shows "group_char c \<or> digit c \<or> CHR 0x80 \<le> c"
proof -
  from assms(1) obtain G d1 d2 d3 where w: "w = ''REQ-'' @ G @ d1 @ d2 @ d3"
    and g: "is_groups G"
    and d: "decimal_digit U d1" "decimal_digit U d2" "decimal_digit U d3"
    unfolding is_req_id_decompose by blast
  from assms(2) consider "c \<in> set ''REQ-''" | "c \<in> set G"
    | "c \<in> set d1" | "c \<in> set d2" | "c \<in> set d3"
    by (auto simp: w)
  then show ?thesis
  proof cases
    case 1
    then show ?thesis by (auto simp: group_char_def upper_def less_eq_char_def)
  next
    case 2
    with is_groups_group_char [OF g] show ?thesis by (simp add: list_all_iff)
  next
    case 3
    with decimal_digit_bytes [OF d(1)] show ?thesis by blast
  next
    case 4
    with decimal_digit_bytes [OF d(2)] show ?thesis by blast
  next
    case 5
    with decimal_digit_bytes [OF d(3)] show ?thesis by blast
  qed
qed

lemma is_req_id_one_word:
  assumes "is_req_id U w"
  shows "CHR 0x0A \<notin> set w" and "CHR '' '' \<notin> set w"
  using is_req_id_bytes [OF assms, of "CHR 0x0A"] is_req_id_bytes [OF assms, of "CHR '' ''"]
  by (auto simp: group_char_def upper_def digit_def less_eq_char_def)

lemma is_req_id_prefix_free:
  assumes "is_req_id U w" and "is_req_id U (w @ r)"
  shows "r = []"
proof -
  from assms(1) obtain G d1 d2 d3 where w: "w = ''REQ-'' @ G @ d1 @ d2 @ d3"
    and g: "is_groups G"
    and d: "decimal_digit U d1" "decimal_digit U d2" "decimal_digit U d3"
    unfolding is_req_id_decompose by blast
  from assms(2) obtain G' e1 e2 e3 where w': "w @ r = ''REQ-'' @ G' @ e1 @ e2 @ e3"
    and g': "is_groups G'"
    and e: "decimal_digit U e1" "decimal_digit U e2" "decimal_digit U e3"
    unfolding is_req_id_decompose by blast
  let ?T = "d1 @ d2 @ d3 @ r"
  let ?T' = "e1 @ e2 @ e3"
  from w w' have eq: "G @ ?T = G' @ ?T'"
    by simp
  from decimal_digit_head(1,2) [OF d(1)] have T: "?T \<noteq> []" "\<not> group_char (hd ?T)"
    by simp_all
  from decimal_digit_head(1,2) [OF e(1)] have T': "?T' \<noteq> []" "\<not> group_char (hd ?T')"
    by simp_all
  from takeWhile_run(2) [OF is_groups_group_char [OF g] T]
    takeWhile_run(2) [OF is_groups_group_char [OF g'] T'] eq
  have "?T = ?T'"
    by simp
  then have "utf8_chars ?T = utf8_chars ?T'"
    by simp
  with d e have "utf8_chars r = []"
    by (simp add: utf8_chars_digit utf8_chars_one)
  then show ?thesis
    by (simp add: utf8_chars_nil)
qed

lemma rmatch_req_re:
  assumes "st \<in> set (rmatch (req_re U) (p, s, g))"
  shows "\<exists>w. s = w @ rest_of st \<and> is_req_id U w"
  using rmatch_sound [OF assms] by (auto simp only: lang_req_re rest_of.simps)

lemma plain_req_re: "plain (req_re U)"
  by (simp add: req_re_def Plus_def Rep3_def)

lemma rmatch_req_re_nil: "rmatch (req_re U) (p, [], g) = []"
proof (cases "rmatch (req_re U) (p, [], g)")
  case Nil
  then show ?thesis .
next
  case (Cons st sts)
  then have "st \<in> set (rmatch (req_re U) (p, [], g))"
    by simp
  from rmatch_req_re [OF this] have "is_req_id U []"
    by simp
  then show ?thesis
    by (simp add: is_req_id_def)
qed

lemma re_finditer_req_nil: "re_finditer (req_re U) p [] = []"
  by (subst re_finditer.simps) (simp add: rmatch_req_re_nil)

lemma re_finditer_req_step:
  assumes "rmatch (req_re U) (p, s, []) = st # sts"
  shows "\<exists>w. s = w @ rest_of st \<and> is_req_id U w
           \<and> re_finditer (req_re U) p s
               = (w, groups_of st) # re_finditer (req_re U) (last_char p w) (rest_of st)"
proof -
  from assms have "st \<in> set (rmatch (req_re U) (p, s, []))"
    by simp
  from rmatch_req_re [OF this] obtain w where s: "s = w @ rest_of st" and w: "is_req_id U w"
    by blast
  from is_req_id_length [OF w] have "w \<noteq> []"
    by auto
  then have lt: "length (rest_of st) < length s"
    by (subst s) simp
  have tk: "take (length s - length (rest_of st)) s = w"
    by (subst (1 2) s) simp
  have "re_finditer (req_re U) p s
          = (w, groups_of st) # re_finditer (req_re U) (last_char p w) (rest_of st)"
    by (subst re_finditer.simps) (simp only: assms list.case lt if_True tk)
  with s w show ?thesis
    by blast
qed

lemma re_finditer_req_sound:
  "x \<in> set (re_finditer (req_re U) p s) \<Longrightarrow> is_req_id U (fst x)"
proof (induction "length s" arbitrary: s p rule: less_induct)
  case less
  show ?case
  proof (cases "rmatch (req_re U) (p, s, [])")
    case Nil
    have unf: "re_finditer (req_re U) p s
                 = (case s of [] \<Rightarrow> [] | c # cs \<Rightarrow> re_finditer (req_re U) (Some c) cs)"
      by (subst re_finditer.simps) (simp only: Nil list.case)
    show ?thesis
    proof (cases s)
      case Nil
      with less.prems show ?thesis
        by (simp add: re_finditer_req_nil)
    next
      case (Cons c cs)
      with unf have "re_finditer (req_re U) p s = re_finditer (req_re U) (Some c) cs"
        by simp
      with less.prems have "x \<in> set (re_finditer (req_re U) (Some c) cs)"
        by simp
      moreover have "length cs < length s"
        by (simp add: Cons)
      ultimately show ?thesis
        using less.hyps by blast
    qed
  next
    case (Cons st sts)
    from re_finditer_req_step [OF Cons] obtain w where s: "s = w @ rest_of st"
      and w: "is_req_id U w"
      and f: "re_finditer (req_re U) p s
               = (w, groups_of st) # re_finditer (req_re U) (last_char p w) (rest_of st)"
      by blast
    from is_req_id_length [OF w] have lt: "length (rest_of st) < length s"
      by (subst s) auto
    from less.prems f consider "x = (w, groups_of st)"
      | "x \<in> set (re_finditer (req_re U) (last_char p w) (rest_of st))"
      by auto
    then show ?thesis
    proof cases
      case 1
      with w show ?thesis by simp
    next
      case 2
      with lt less.hyps show ?thesis by blast
    qed
  qed
qed

lemma re_findall_req_sound: "x \<in> set (re_findall (req_re U) text) \<Longrightarrow> is_req_id U x"
  by (auto simp: re_findall_def dest: re_finditer_req_sound)

lemma re_findall_req_complete:
  assumes "is_req_id U s"
  shows "re_findall (req_re U) s = [s]"
proof -
  from rmatch_complete [OF plain_req_re [of U], of s "[]" None "[]"] assms
  obtain p' g' where "(p', [], g') \<in> set (rmatch (req_re U) (None, s, []))"
    by (auto simp: lang_req_re)
  then obtain st sts where m: "rmatch (req_re U) (None, s, []) = st # sts"
    by (cases "rmatch (req_re U) (None, s, [])") auto
  from re_finditer_req_step [OF m] obtain w where s: "s = w @ rest_of st"
    and w: "is_req_id U w"
    and f: "re_finditer (req_re U) None s
               = (w, groups_of st) # re_finditer (req_re U) (last_char None w) (rest_of st)"
    by blast
  from assms s have "is_req_id U (w @ rest_of st)"
    by simp
  from is_req_id_prefix_free [OF w this] have r: "rest_of st = []" .
  with s have "w = s" by simp
  with f r show ?thesis
    by (simp add: re_findall_def re_finditer_req_nil)
qed

lemma grammar_examples:
  "is_req_id U ''REQ-FUNC-LOG-010''"
  "\<not> is_req_id U ''REQ-func-010''"
  "\<not> is_req_id U ''REQ-FUNC-10''"
  "\<not> is_req_id U ''REQ-FUNC-0100''"
  by code_simp+

lemma near_miss_texts:
  "re_findall (req_re U) ''REQ-func-010'' = []"
  "re_findall (req_re U) ''REQ-FUNC-10'' = []"
  "re_findall (req_re U) ''REQ-FUNC-0100'' = [''REQ-FUNC-010'']"
  "re_findall (req_re U) ''see REQ-FUNC-LOG-010, not REQ-FUNC-0100''
     = [''REQ-FUNC-LOG-010'', ''REQ-FUNC-010'']"
  by code_simp+

lemma doc_ids_sound:
  "x \<in> extract_requirement_ids_from_docs U srvp srs \<Longrightarrow> is_req_id U x"
  by (cases srvp; cases srs)
     (auto simp: extract_requirement_ids_from_docs_def update_ids_from_doc_def
        dest: re_findall_req_sound)

lemma annotation_ids_sound:
  "a \<in> set (annotations U file_name content) \<Longrightarrow> x \<in> set (snd a) \<Longrightarrow> is_req_id U x"
  by (auto simp: annotations_def annotation_def Let_def dest: re_findall_req_sound)

lemma association_keys_sound:
  assumes "extract_req_ids_from_docstrings U entries = Inr req_to_tests"
    and "k \<in> set (map fst req_to_tests)"
  shows "is_req_id U k"
proof -
  from assms obtain entry a where "a \<in> set (file_annotations U entry)" "k \<in> set (snd a)"
    unfolding association_keys [OF assms(1)] by auto
  then show ?thesis
    by (auto simp: file_annotations_def split: sum.splits dest: annotation_ids_sound)
qed

lemma arabic_indic_example:
  "is_req_id arabic_indic_db arabic_indic_id"
  "re_findall (req_re arabic_indic_db) arabic_indic_id = [arabic_indic_id]"
  "\<not> is_req_id ascii_db arabic_indic_id"
  "re_findall (req_re ascii_db) arabic_indic_id = []"
  by code_simp+

text \<open>
  Claim C4 says that, for every input text, extraction yields no identifier for a
  near-miss such as the four-digit \<^verbatim>\<open>REQ-FUNC-0100\<close>. \<^verbatim>\<open>re.findall\<close> searches for the
  pattern anywhere in the text and does not look at what follows a match: in the text
  \<^verbatim>\<open>REQ-FUNC-0100\<close> it finds the identifier \<^verbatim>\<open>REQ-FUNC-010\<close>, in document mode as well.
  The text is ASCII, so the result is the same with every Unicode database (the third
  equation of \<open>near_miss_texts\<close>).
\<close>

theorem four_digit_near_miss_counterexample:
  "re_findall (req_re ascii_db) ''REQ-FUNC-0100'' = [''REQ-FUNC-010'']
   \<and> extract_requirement_ids_from_docs ascii_db (Content ''REQ-FUNC-0100'') Missing
       = {''REQ-FUNC-010''}"
  by code_simp

text \<open>
  Claim C4, as amended. What extraction yields, from any text, in document mode and in
  annotation mode (the ids of one annotation and the keys of the association map), is
  always a string of the requirement grammar: \<^verbatim>\<open>REQ-\<close>, one or more groups of uppercase
  letters each followed by \<^verbatim>\<open>-\<close>, and exactly three decimal digits, a decimal digit
  being an ASCII digit or another character that the Unicode database \<open>U\<close> of the
  interpreter classifies as one; and a string of the grammar that is scanned on its
  own is yielded, as the only result. \<^verbatim>\<open>REQ-FUNC-LOG-010\<close> is in the grammar and the
  three near-misses are not, so no text ever yields one of them, and the texts
  \<^verbatim>\<open>REQ-func-010\<close> and \<^verbatim>\<open>REQ-FUNC-10\<close> yield nothing. A near-miss that begins with a
  string of the grammar yields that string: the text \<^verbatim>\<open>REQ-FUNC-0100\<close> yields
  \<^verbatim>\<open>REQ-FUNC-010\<close>.
\<close>

theorem extraction_matches_requirement_grammar:
  "(\<forall>x \<in> set (re_findall (req_re U) text). is_req_id U x)
   \<and> (\<forall>x \<in> extract_requirement_ids_from_docs U srvp srs. is_req_id U x)
   \<and> (\<forall>a \<in> set (annotations U file_name content). \<forall>x \<in> set (snd a). is_req_id U x)
   \<and> (extract_req_ids_from_docstrings U entries = Inr req_to_tests
        \<longrightarrow> (\<forall>k \<in> set (map fst req_to_tests). is_req_id U k))
   \<and> (is_req_id U s \<longrightarrow> re_findall (req_re U) s = [s])
   \<and> is_req_id U ''REQ-FUNC-LOG-010''
   \<and> \<not> is_req_id U ''REQ-func-010'' \<and> \<not> is_req_id U ''REQ-FUNC-10''
   \<and> \<not> is_req_id U ''REQ-FUNC-0100''
   \<and> ''REQ-func-010'' \<notin> set (re_findall (req_re U) text)
   \<and> ''REQ-FUNC-10'' \<notin> set (re_findall (req_re U) text)
   \<and> ''REQ-FUNC-0100'' \<notin> set (re_findall (req_re U) text)
   \<and> re_findall (req_re U) ''REQ-func-010'' = []
   \<and> re_findall (req_re U) ''REQ-FUNC-10'' = []
   \<and> re_findall (req_re U) ''REQ-FUNC-0100'' = [''REQ-FUNC-010'']"
proof -
  have s: "\<forall>x \<in> set (re_findall (req_re U) text). is_req_id U x"
    by (blast dest: re_findall_req_sound)
  have d: "\<forall>x \<in> extract_requirement_ids_from_docs U srvp srs. is_req_id U x"
    by (blast dest: doc_ids_sound)
  have a: "\<forall>a \<in> set (annotations U file_name content). \<forall>x \<in> set (snd a). is_req_id U x"
    by (blast dest: annotation_ids_sound)
  have k: "extract_req_ids_from_docstrings U entries = Inr req_to_tests
        \<longrightarrow> (\<forall>k \<in> set (map fst req_to_tests). is_req_id U k)"
    by (blast dest: association_keys_sound)
  have c: "is_req_id U s \<longrightarrow> re_findall (req_re U) s = [s]"
    by (blast dest: re_findall_req_complete)
  have n: "''REQ-func-010'' \<notin> set (re_findall (req_re U) text)"
    "''REQ-FUNC-10'' \<notin> set (re_findall (req_re U) text)"
    "''REQ-FUNC-0100'' \<notin> set (re_findall (req_re U) text)"
    using s grammar_examples(2-4) by blast+
  from s d a k c n grammar_examples near_miss_texts(1-3) show ?thesis
    by (intro conjI)
qed

theorem extraction_matches_requirement_grammar_witness:
  "is_req_id arabic_indic_db arabic_indic_id
   \<and> re_findall (req_re arabic_indic_db) arabic_indic_id = [arabic_indic_id]
   \<and> re_findall (req_re arabic_indic_db) ''see REQ-FUNC-LOG-010, not REQ-FUNC-0100''
       = [''REQ-FUNC-LOG-010'', ''REQ-FUNC-010'']
   \<and> is_req_id arabic_indic_db ''REQ-FUNC-010''
   \<and> extract_req_ids_from_docstrings arabic_indic_db example_entries
       = Inr [(''REQ-A-001'', [''tests/test_b.py::test_y'', ''tests/test_a.py::test_x'',
                              ''tests/test_a.py::test_x'']),
              (''REQ-B-002'', [''tests/test_a.py::test_x''])]
   \<and> is_req_id arabic_indic_db ''REQ-A-001'' \<and> is_req_id arabic_indic_db ''REQ-B-002''"
  using extraction_matches_requirement_grammar [of arabic_indic_db
      "''see REQ-FUNC-LOG-010, not REQ-FUNC-0100''" Missing Missing "[]" "[]" example_entries
      "[(''REQ-A-001'', [''tests/test_b.py::test_y'', ''tests/test_a.py::test_x'',
                        ''tests/test_a.py::test_x'']),
        (''REQ-B-002'', [''tests/test_a.py::test_x''])]" arabic_indic_id]
    near_miss_texts(4) [of arabic_indic_db] arabic_indic_example(1)
    example_entries_result [of arabic_indic_db]
  by simp
section \<open>The requirement universe and the rendered report\<close>

lemma finite_doc_ids: "finite (extract_requirement_ids_from_docs U srvp srs)"
  by (cases srvp; cases srs)
     (simp_all add: extract_requirement_ids_from_docs_def update_ids_from_doc_def)

lemma all_req_ids_sorted_props:
  assumes "finite docs"
  shows "set (all_req_ids_sorted rt docs) = fst ` set rt \<union> docs"
    and "distinct (all_req_ids_sorted rt docs)"
    and "sorted (all_req_ids_sorted rt docs)"
  using assms by (simp_all add: all_req_ids_sorted_def)

lemma no_status_without_tests:
  assumes "is_dict rt" and "dict_get rt rid [] = []"
  shows "map_of (get_requirement_statuses tos rt) rid = None"
proof (cases "map_of rt rid")
  case None
  with assms(1) show ?thesis
    by (simp add: get_requirement_statuses_def is_dict_def map_of_fold_resolve)
next
  case (Some tests)
  with assms(2) have "tests = []"
    by (simp add: dict_get_def)
  with Some assms(1) show ?thesis
    by (simp add: get_requirement_statuses_def is_dict_def map_of_fold_resolve outcomes_of_def)
qed

lemma single_line_simps [simp]:
  "single_line []"
  "single_line (c # cs) \<longleftrightarrow> c \<noteq> CHR 0x0A \<and> single_line cs"
  "single_line (a @ b) \<longleftrightarrow> single_line a \<and> single_line b"
  by (auto simp: single_line_def)

lemma split_lines_single: "single_line l \<Longrightarrow> split_lines l = [l]"
  by (induction l) simp_all

lemma split_lines_append:
  "single_line l \<Longrightarrow> split_lines (l @ CHR 0x0A # rest) = l # split_lines rest"
  by (induction l) simp_all

lemma split_lines_join:
  "ls \<noteq> [] \<Longrightarrow> list_all single_line ls \<Longrightarrow> split_lines (join nl ls) = ls"
  by (induction nl ls rule: join.induct)
     (simp_all add: split_lines_single split_lines_append nl_def)

lemma single_line_join:
  "single_line sep \<Longrightarrow> list_all single_line xs \<Longrightarrow> single_line (join sep xs)"
  by (induction sep xs rule: join.induct) simp_all

lemma single_line_str_nat: "single_line (str_nat n)"
proof (induction n rule: str_nat.induct)
  case (1 n)
  have d: "char_of (48 + k) \<noteq> CHR 0x0A" if "k < 10" for k :: nat
  proof
    assume "char_of (48 + k) = CHR 0x0A"
    then have "of_char (char_of (48 + k) :: char) = (of_char (CHR 0x0A) :: nat)"
      by simp
    with that show False
      by (simp add: of_char_of)
  qed
  show ?case
  proof (cases "n < 10")
    case True
    with d [of n] show ?thesis
      by (subst str_nat.simps) simp
  next
    case False
    with 1 d [of "n mod 10"] show ?thesis
      by (subst str_nat.simps) simp
  qed
qed

lemma single_line_py_str: "single_line (py_str i)"
  by (simp add: py_str_def single_line_str_nat)


lemma single_line_dict_get:
  "\<forall>(k, v) \<in> set d. single_line v \<Longrightarrow> single_line dflt \<Longrightarrow> single_line (dict_get d k dflt)"
  by (auto simp: dict_get_def split: option.splits dest: map_of_SomeD)

lemma single_line_tests:
  assumes "\<forall>(k, ts) \<in> set rt. \<forall>t \<in> set ts. single_line t"
  shows "list_all single_line (dict_get rt k [])"
proof (cases "map_of rt k")
  case None
  then show ?thesis by (simp add: dict_get_def)
next
  case (Some ts)
  then have "(k, ts) \<in> set rt"
    by (rule map_of_SomeD)
  with assms Some show ?thesis
    by (auto simp: dict_get_def list_all_iff)
qed

lemma single_line_table_row:
  assumes "single_line req_id"
    and "\<forall>(k, st) \<in> set rs. single_line st"
    and "\<forall>(k, ts) \<in> set rt. \<forall>t \<in> set ts. single_line t"
  shows "single_line (table_row rs rt req_id)"
proof -
  have "single_line (dict_get rs req_id not_started)"
    using assms(2) by (rule single_line_dict_get) (simp add: not_started_def)
  moreover have "single_line (join '', '' (dict_get rt req_id []))"
    using single_line_tests [OF assms(3)] by (intro single_line_join) simp_all
  ultimately show ?thesis
    using assms(1) by (simp add: table_row_def Let_def)
qed

lemma single_line_evidence:
  assumes "single_line nodeid" and "\<forall>(t, out) \<in> set tos. single_line out"
  shows "single_line (evidence_line tos nodeid)"
proof -
  have "single_line (dict_get tos nodeid ''skipped'')"
    using assms(2) by (rule single_line_dict_get) simp
  then show ?thesis
    using assms(1)
    by (simp add: evidence_line_def Let_def check_mark_def cross_mark_def minus_mark_def
        em_dash_def backtick_def)
qed

lemma single_line_detail_block:
  assumes "single_line req_id"
    and "\<forall>(k, st) \<in> set rs. single_line st"
    and "\<forall>(k, ts) \<in> set rt. \<forall>t \<in> set ts. single_line t"
    and "\<forall>(t, out) \<in> set tos. single_line out"
  shows "list_all single_line (detail_block rs rt tos req_id)"
proof -
  have "single_line (dict_get rs req_id not_started)"
    using assms(2) by (rule single_line_dict_get) (simp add: not_started_def)
  moreover have "list_all single_line (map (evidence_line tos) (dict_get rt req_id []))"
    using single_line_tests [OF assms(3), of req_id] assms(4)
    by (simp add: list_all_iff single_line_evidence)
  ultimately show ?thesis
    using assms(1)
    by (simp add: detail_block_def minus_mark_def)
qed

lemma single_line_report_head:
  assumes "case meta of (version, author, date) \<Rightarrow>
             single_line version \<and> single_line author \<and> single_line date"
  shows "list_all single_line (report_head meta rs tos ids)"
proof -
  obtain version author date where meta: "meta = (version, author, date)"
    by (cases meta)
  have "single_line (tests_summary tos)"
    by (simp add: tests_summary_def Let_def single_line_py_str)
  moreover have "single_line (requirements_summary c)" for c
    by (cases c) (simp add: requirements_summary_def single_line_py_str)
  ultimately show ?thesis
    using assms
    by (simp add: report_head_def front_matter_def meta)
qed

lemma single_line_report_lines:
  assumes "case meta of (version, author, date) \<Rightarrow>
             single_line version \<and> single_line author \<and> single_line date"
    and "list_all single_line ids"
    and "\<forall>(k, st) \<in> set rs. single_line st"
    and "\<forall>(k, ts) \<in> set rt. \<forall>t \<in> set ts. single_line t"
    and "\<forall>(t, out) \<in> set tos. single_line out"
  shows "list_all single_line (report_lines meta ids rs rt tos)"
proof -
  have "list_all single_line (map (table_row rs rt) ids)"
    using assms(2) single_line_table_row [OF _ assms(3,4)]
    by (simp add: list_all_iff)
  moreover have "list_all single_line (concat (map (detail_block rs rt tos) ids))"
    using assms(2) single_line_detail_block [OF _ assms(3,4,5)]
    by (auto simp: list_all_iff)
  ultimately show ?thesis
    using single_line_report_head [OF assms(1), of rs tos ids]
    by (simp add: report_lines_def)
qed

lemma report_head_not_rule:
  "l \<in> set (report_head meta rs tos ids) \<Longrightarrow> l \<noteq> ''## Details''"
  "report_head meta rs tos ids = butlast (report_head meta rs tos ids) @ [''| --- | --- | --- |'']"
  "l \<in> set (butlast (report_head meta rs tos ids)) \<Longrightarrow> l \<noteq> ''| --- | --- | --- |''"
  by (cases meta; cases "requirement_counts rs ids";
      auto simp: report_head_def front_matter_def tests_summary_def requirements_summary_def
        Let_def butlast_append)+

lemma table_rows_report_lines:
  "table_rows (report_lines meta ids rs rt tos) = map (table_row rs rt) ids"
proof -
  let ?P = "\<lambda>l. l \<noteq> ''| --- | --- | --- |''"
  let ?pre = "butlast (report_head meta rs tos ids)"
  let ?rest = "map (table_row rs rt) ids @ [[], ''## Details'', []]
                 @ concat (map (detail_block rs rt tos) ids)"
  have "report_lines meta ids rs rt tos = ?pre @ ''| --- | --- | --- |'' # ?rest"
    by (subst report_lines_def, subst report_head_not_rule(2)) simp
  moreover have "dropWhile ?P (?pre @ ''| --- | --- | --- |'' # ?rest)
                   = ''| --- | --- | --- |'' # ?rest"
    using report_head_not_rule(3) [of _ meta rs tos ids]
    by (subst dropWhile_append2) auto
  moreover have "takeWhile (\<lambda>l. l \<noteq> []) ?rest = map (table_row rs rt) ids"
    by (subst takeWhile_append2) (auto simp: table_row_def Let_def)
  ultimately show ?thesis
    by (simp add: table_rows_def)
qed

lemma row_id_table_row:
  assumes "CHR '' '' \<notin> set req_id"
  shows "row_id (table_row rs rt req_id) = req_id"
proof -
  from assms have "takeWhile (\<lambda>c. c \<noteq> CHR '' '') (req_id @ CHR '' '' # rest) = req_id" for rest
    by (subst takeWhile_append2) auto
  then show ?thesis
    by (simp add: row_id_def table_row_def Let_def eval_nat_numeral)
qed

lemma detail_block_headings:
  "filter (\<lambda>l. take 4 l = ''### '') (detail_block rs rt tos req_id) = [''### '' @ req_id]"
  by (simp add: detail_block_def filter_empty_conv evidence_line_def Let_def eval_nat_numeral)

lemma detail_headings_report_lines:
  "map (drop 4) (filter (\<lambda>l. take 4 l = ''### '')
      (dropWhile (\<lambda>l. l \<noteq> ''## Details'') (report_lines meta ids rs rt tos))) = ids"
proof -
  let ?P = "\<lambda>l. l \<noteq> ''## Details''"
  let ?Q = "\<lambda>l. take 4 l = ''### ''"
  let ?pre = "report_head meta rs tos ids @ map (table_row rs rt) ids @ [[]]"
  let ?rest = "[] # concat (map (detail_block rs rt tos) ids)"
  have "report_lines meta ids rs rt tos = ?pre @ ''## Details'' # ?rest"
    by (simp add: report_lines_def)
  moreover have "dropWhile ?P (?pre @ ''## Details'' # ?rest) = ''## Details'' # ?rest"
    using report_head_not_rule(1) [of _ meta rs tos ids]
    by (subst dropWhile_append2) (auto simp: table_row_def Let_def)
  moreover have "filter ?Q (concat (map (detail_block rs rt tos) ids))
                   = map (\<lambda>req_id. ''### '' @ req_id) ids"
    by (induction ids) (simp_all add: detail_block_headings)
  ultimately show ?thesis
    by (simp add: comp_def eval_nat_numeral)
qed

lemma report_lines_not_nil: "report_lines meta ids rs rt tos \<noteq> []"
  by (simp add: report_lines_def report_head_def)

lemma read_report_back:
  assumes "case get_release_metadata w of (version, author, date) \<Rightarrow>
             single_line version \<and> single_line author \<and> single_line date"
    and "\<forall>k \<in> set (map fst rt). is_req_id (unicode w) k"
    and "\<forall>(k, st) \<in> set rs. single_line st"
    and "\<forall>(k, ts) \<in> set rt. \<forall>t \<in> set ts. single_line t"
    and "\<forall>(t, out) \<in> set tos. single_line out"
  shows "table_ids (build_markdown_report w rs rt tos)
           = all_req_ids_sorted rt
               (extract_requirement_ids_from_docs (unicode w) (srvp_file w) (srs_file w))"
    and "detail_ids (build_markdown_report w rs rt tos)
           = all_req_ids_sorted rt
               (extract_requirement_ids_from_docs (unicode w) (srvp_file w) (srs_file w))"
proof -
  let ?docs = "extract_requirement_ids_from_docs (unicode w) (srvp_file w) (srs_file w)"
  let ?ids = "all_req_ids_sorted rt ?docs"
  let ?L = "report_lines (get_release_metadata w) ?ids rs rt tos"
  have id: "is_req_id (unicode w) k" if "k \<in> set ?ids" for k
    using that assms(2) doc_ids_sound [of k "unicode w" "srvp_file w" "srs_file w"]
    by (auto simp: all_req_ids_sorted_props(1) [OF finite_doc_ids])
  then have one: "list_all single_line ?ids" and sp: "\<forall>k \<in> set ?ids. CHR '' '' \<notin> set k"
    using is_req_id_one_word [of "unicode w"] by (simp_all add: list_all_iff single_line_def)
  from single_line_report_lines [OF assms(1) one assms(3,4,5)] report_lines_not_nil
  have sl: "split_lines (join nl ?L) = ?L"
    by (intro split_lines_join)
  have "map row_id (map (table_row rs rt) ?ids) = ?ids"
    using sp by (simp add: row_id_table_row map_idI)
  then show "table_ids (build_markdown_report w rs rt tos) = ?ids"
    by (simp only: table_ids_def build_markdown_report_def Let_def sl table_rows_report_lines)
  show "detail_ids (build_markdown_report w rs rt tos) = ?ids"
    by (simp only: detail_ids_def build_markdown_report_def Let_def sl
        detail_headings_report_lines)
qed

lemma dict_count:
  assumes "is_dict d" and "is_dict d'" and "map_of d = map_of d'"
  shows "length d = length d'"
    and "count_if P (map snd d) = count_if P (map snd d')"
proof -
  from assms have s: "set d = set d'"
    by (simp add: is_dict_def map_of_inject_set)
  from assms(1,2) have dd: "distinct d" "distinct d'"
    by (simp_all add: is_dict_def distinct_map)
  from dd s show "length d = length d'"
    by (metis distinct_card)
  have "length (filter P (map snd e)) = card {x \<in> set e. P (snd x)}" if "distinct e"
    for e :: "('a \<times> 'b) list"
  proof -
    have "length (filter P (map snd e)) = length (filter (P \<circ> snd) e)"
      by (simp add: filter_map)
    also from that have "\<dots> = card (set (filter (P \<circ> snd) e))"
      using distinct_card [of "filter (P \<circ> snd) e"] by simp
    finally show ?thesis
      by (simp add: comp_def)
  qed
  from this [OF dd(1)] this [OF dd(2)] s show "count_if P (map snd d) = count_if P (map snd d')"
    by (simp add: count_if_def)
qed

lemma report_lines_cong:
  assumes "map_of rs = map_of rs'" and "map_of rt = map_of rt'"
    and "is_dict tos" and "is_dict tos'" and "map_of tos = map_of tos'"
  shows "report_lines meta ids rs rt tos = report_lines meta ids rs' rt' tos'"
proof -
  from assms(1,2,5) have g: "dict_get rs = dict_get rs'" "dict_get rt = dict_get rt'"
    "dict_get tos = dict_get tos'"
    by (simp_all add: dict_get_def fun_eq_iff)
  have "tests_summary tos = tests_summary tos'"
    using dict_count [OF assms(3,4,5)] by (simp add: tests_summary_def)
  moreover have "requirement_counts rs ids = requirement_counts rs' ids"
    by (simp add: requirement_counts_def status_of_def g)
  moreover have "table_row rs rt = table_row rs' rt'"
    by (simp add: table_row_def g fun_eq_iff)
  moreover have "detail_block rs rt tos = detail_block rs' rt' tos'"
    by (simp add: detail_block_def evidence_line_def g fun_eq_iff)
  ultimately show ?thesis
    by (simp add: report_lines_def report_head_def)
qed

lemma keys_cong: "map_of rt = map_of rt' \<Longrightarrow> set (map fst rt) = set (map fst rt')"
  by (metis dom_map_of_conv_image_fst list.set_map)

lemma sort_enumeration:
  "distinct xs \<Longrightarrow> set xs = S \<Longrightarrow> sort xs = sorted_list_of_set S"
  by (metis sorted_list_of_set_sort_remdups distinct_remdups_id)

text \<open>
  Claim C9. The report is a function of the status map, the association map and the
  outcome store as mappings, of the set of ids of the documents and of the resolved
  metadata: two runs that agree on these produce the same text, byte for byte, also
  when the dictionaries were filled in different orders and in environments that
  differ otherwise. The order in which Python iterates over the set of ids plays no
  part either: whatever enumeration of the union of the keys and the document ids
  \<^verbatim>\<open>sorted\<close> receives, the report is the one rendered from the sorted enumeration.
\<close>

theorem report_is_deterministic:
  assumes "map_of req_statuses = map_of req_statuses'"
    and "map_of req_to_tests = map_of req_to_tests'"
    and "is_dict test_outcomes" and "is_dict test_outcomes'"
    and "map_of test_outcomes = map_of test_outcomes'"
    and "extract_requirement_ids_from_docs (unicode w1) (srvp_file w1) (srs_file w1)
           = extract_requirement_ids_from_docs (unicode w2) (srvp_file w2) (srs_file w2)"
    and "get_release_metadata w1 = get_release_metadata w2"
    and "distinct enumeration"
    and "set enumeration = set (map fst req_to_tests)
           \<union> extract_requirement_ids_from_docs (unicode w1) (srvp_file w1) (srs_file w1)"
  shows "build_markdown_report w1 req_statuses req_to_tests test_outcomes
           = build_markdown_report w2 req_statuses' req_to_tests' test_outcomes'
       \<and> build_markdown_report w1 req_statuses req_to_tests test_outcomes
           = join nl (report_lines (get_release_metadata w1) (sort enumeration)
                        req_statuses req_to_tests test_outcomes)"
proof
  from keys_cong [OF assms(2)] assms(6)
  have "all_req_ids_sorted req_to_tests
          (extract_requirement_ids_from_docs (unicode w1) (srvp_file w1) (srs_file w1))
        = all_req_ids_sorted req_to_tests'
          (extract_requirement_ids_from_docs (unicode w2) (srvp_file w2) (srs_file w2))"
    by (simp add: all_req_ids_sorted_def)
  with assms(7) report_lines_cong [OF assms(1-5)]
  show "build_markdown_report w1 req_statuses req_to_tests test_outcomes
           = build_markdown_report w2 req_statuses' req_to_tests' test_outcomes'"
    by (simp add: build_markdown_report_def)
  from sort_enumeration [OF assms(8,9)]
  show "build_markdown_report w1 req_statuses req_to_tests test_outcomes
           = join nl (report_lines (get_release_metadata w1) (sort enumeration)
                        req_statuses req_to_tests test_outcomes)"
    by (simp add: build_markdown_report_def all_req_ids_sorted_def)
qed

lemma example_pipeline:
  "tests_dir example_world = Some example_dir"
  "extract_req_ids_from_docstrings U example_dir = Inr example_tests"
  "parse_test_report (report_json example_world) = Inr example_outcomes"
  "get_requirement_statuses example_outcomes example_tests = example_statuses"
  by code_simp+

lemma example_doc_ids:
  "extract_requirement_ids_from_docs U (srvp_file example_world) (srs_file example_world)
     = {''REQ-FUNC-LOG-010'', ''REQ-NFR-REL-001''}"
  "extract_requirement_ids_from_docs U (srvp_file other_world) (srs_file other_world)
     = {''REQ-FUNC-LOG-010'', ''REQ-NFR-REL-001''}"
  by code_simp+

lemma example_metadata:
  "get_release_metadata example_world = (''1.2.3'', ''ci-bot'', ''2025-09-16'')"
  "get_release_metadata other_world = (''1.2.3'', ''ci-bot'', ''2025-09-16'')"
  by code_simp+

lemma example_ids:
  "sorted_list_of_set (set (map fst example_tests) \<union> {''REQ-FUNC-LOG-010'', ''REQ-NFR-REL-001''})
     = [''REQ-A-001'', ''REQ-FUNC-LOG-010'', ''REQ-NFR-REL-001'']"
  "sort [''REQ-NFR-REL-001'', ''REQ-FUNC-LOG-010'', ''REQ-A-001'']
     = [''REQ-A-001'', ''REQ-FUNC-LOG-010'', ''REQ-NFR-REL-001'']"
  by code_simp+

lemma example_dicts:
  "map_of example_statuses = map_of (rev example_statuses)"
  "map_of example_tests = map_of (rev example_tests)"
  "map_of example_outcomes = map_of (rev example_outcomes)"
  "is_dict example_outcomes" "is_dict (rev example_outcomes)"
  "is_dict example_tests"
  by (auto simp: example_statuses_def example_tests_def example_outcomes_def is_dict_def
      fun_eq_iff)


theorem report_is_deterministic_witness:
  "build_markdown_report example_world example_statuses example_tests example_outcomes
     = build_markdown_report other_world (rev example_statuses) (rev example_tests)
         (rev example_outcomes)
   \<and> build_markdown_report example_world example_statuses example_tests example_outcomes
     = join nl (report_lines (''1.2.3'', ''ci-bot'', ''2025-09-16'')
                  [''REQ-A-001'', ''REQ-FUNC-LOG-010'', ''REQ-NFR-REL-001'']
                  example_statuses example_tests example_outcomes)"
  using report_is_deterministic [of example_statuses "rev example_statuses"
      example_tests "rev example_tests" example_outcomes "rev example_outcomes"
      example_world other_world "[''REQ-NFR-REL-001'', ''REQ-FUNC-LOG-010'', ''REQ-A-001'']"]
    example_dicts example_doc_ids example_metadata example_ids(2)
  by (auto simp: example_tests_def)

text \<open>
  Claim C2. A requirement id of the universe (an id that the documents mention, or a
  key of the association map) that has no associated test is shown as
  \<^verbatim>\<open>[ ] Not Started\<close>. The text that the renderer returns for the statuses that status
  resolution computed has, among its lines, the row of the id in the requirements
  table, which says \<^verbatim>\<open>[ ] Not Started\<close> and lists no test, and, in the detail section
  that begins below the table, the block of the id: its heading, the status line, the
  line \<^verbatim>\<open>- Tests:\<close> and the single marker line \<^verbatim>\<open>No tests mapped yet\<close>, with no evidence
  line.
\<close>

theorem untested_requirement_is_not_started:
  assumes "is_dict req_to_tests"
    and "dict_get req_to_tests req_id [] = []"
    and "req_id \<in> set (map fst req_to_tests)
           \<union> extract_requirement_ids_from_docs (unicode w) (srvp_file w) (srs_file w)"
  shows "\<exists>head rows blocks rest.
     build_markdown_report w (get_requirement_statuses test_outcomes req_to_tests)
         req_to_tests test_outcomes
       = join nl (head
                  @ [''| '' @ req_id @ '' | [ ] Not Started |  |'']
                  @ rows
                  @ [[], ''## Details'', []]
                  @ blocks
                  @ [''### '' @ req_id, [], ''- Status: [ ] Not Started'', ''- Tests:'',
                     ''  - '' @ minus_mark @ '' No tests mapped yet'', []]
                  @ rest)"
proof -
  let ?rs = "get_requirement_statuses test_outcomes req_to_tests"
  let ?docs = "extract_requirement_ids_from_docs (unicode w) (srvp_file w) (srs_file w)"
  let ?ids = "all_req_ids_sorted req_to_tests ?docs"
  let ?row = "table_row ?rs req_to_tests"
  let ?block = "detail_block ?rs req_to_tests test_outcomes"
  have none: "map_of ?rs req_id = None"
    using assms(1,2) by (rule no_status_without_tests)
  have "req_id \<in> set ?ids"
    using assms(3) by (simp add: all_req_ids_sorted_props(1) [OF finite_doc_ids])
  then obtain ys zs where ids: "?ids = ys @ req_id # zs"
    by (auto dest: split_list)
  have row: "?row req_id = ''| '' @ req_id @ '' | [ ] Not Started |  |''"
    using none assms(2) by (simp add: table_row_def dict_get_def not_started_def)
  have block: "?block req_id = [''### '' @ req_id, [], ''- Status: [ ] Not Started'', ''- Tests:'',
                      ''  - '' @ minus_mark @ '' No tests mapped yet'', []]"
    using none assms(2) by (simp add: detail_block_def dict_get_def not_started_def)
  have "report_lines (get_release_metadata w) ?ids ?rs req_to_tests test_outcomes
          = (report_head (get_release_metadata w) ?rs test_outcomes ?ids @ map ?row ys)
            @ [?row req_id] @ map ?row zs @ [[], ''## Details'', []]
            @ concat (map ?block ys) @ ?block req_id @ concat (map ?block zs)"
    unfolding report_lines_def by (subst (2 3) ids) simp
  then have "build_markdown_report w ?rs req_to_tests test_outcomes
          = join nl ((report_head (get_release_metadata w) ?rs test_outcomes ?ids @ map ?row ys)
            @ [''| '' @ req_id @ '' | [ ] Not Started |  |''] @ map ?row zs
            @ [[], ''## Details'', []]
            @ concat (map ?block ys)
            @ [''### '' @ req_id, [], ''- Status: [ ] Not Started'', ''- Tests:'',
                      ''  - '' @ minus_mark @ '' No tests mapped yet'', []]
            @ concat (map ?block zs))"
    by (simp only: build_markdown_report_def Let_def row block)
  then show ?thesis
    by blast
qed

theorem untested_requirement_is_not_started_witness:
  "is_dict example_tests
   \<and> dict_get example_tests ''REQ-NFR-REL-001'' [] = []
   \<and> ''REQ-NFR-REL-001''
       \<in> extract_requirement_ids_from_docs (unicode example_world) (srvp_file example_world)
           (srs_file example_world)
   \<and> (\<exists>head rows blocks rest.
        build_markdown_report example_world
            (get_requirement_statuses example_outcomes example_tests)
            example_tests example_outcomes
          = join nl (head
                  @ [''| REQ-NFR-REL-001 | [ ] Not Started |  |'']
                  @ rows
                  @ [[], ''## Details'', []]
                  @ blocks
                  @ [''### REQ-NFR-REL-001'', [], ''- Status: [ ] Not Started'', ''- Tests:'',
                     ''  - '' @ minus_mark @ '' No tests mapped yet'', []]
                  @ rest))"
  using untested_requirement_is_not_started [of example_tests "''REQ-NFR-REL-001''"
      example_world example_outcomes]
    example_dicts(6) example_doc_ids(1)
  by (simp add: dict_get_def example_tests_def)

lemma example_req_ids:
  "is_req_id U ''REQ-FUNC-LOG-010''" "is_req_id U ''REQ-A-001''"
  by code_simp+

lemma example_single_lines:
  "list_all single_line (map snd example_statuses)"
  "list_all single_line (concat (map snd example_tests))"
  "list_all single_line (map snd example_outcomes)"
  by (simp_all add: example_statuses_def example_tests_def example_outcomes_def)

text \<open>
  Claim C3. Let the ids be the union of the ids found in the documents and the keys of
  the association map, which are the ids found in the documentation blocks, in
  ascending order and each once. The text that the renderer returns is the head of the
  report, one table row for each of these ids in this order, the heading of the detail
  section, and one detail block for each of these ids in this order. Read back from the
  text, the ids of the rows of the table and the ids of the headings of the detail
  section are this list, provided that the text can be read back line by line: the
  metadata, the statuses, the test ids and the outcomes contain no newline, and the
  keys of the association map are requirement ids, which contain no space.
\<close>

theorem report_lists_exact_union:
  "let docs = extract_requirement_ids_from_docs (unicode w) (srvp_file w) (srs_file w);
       ids = sorted_list_of_set (set (map fst req_to_tests) \<union> docs);
       report = build_markdown_report w req_statuses req_to_tests test_outcomes
   in set ids = set (map fst req_to_tests) \<union> docs
    \<and> distinct ids
    \<and> sorted ids
    \<and> (extract_req_ids_from_docstrings (unicode w) entries = Inr req_to_tests \<longrightarrow>
         set (map fst req_to_tests)
           = (\<Union>a \<in> set (concat (map (file_annotations (unicode w))
                  (filter (\<lambda>(name, f). glob_test name) entries))). set (snd a))
         \<and> (\<forall>k \<in> set (map fst req_to_tests). is_req_id (unicode w) k))
    \<and> report = join nl
         (report_head (get_release_metadata w) req_statuses test_outcomes ids
          @ map (\<lambda>req_id. ''| '' @ req_id @ '' | '' @ status_of req_statuses req_id @ '' | ''
                            @ join '', '' (dict_get req_to_tests req_id []) @ '' |'') ids
          @ [[], ''## Details'', []]
          @ concat (map (\<lambda>req_id. (''### '' @ req_id)
                          # tl (detail_block req_statuses req_to_tests test_outcomes req_id)) ids))
    \<and> ((case get_release_metadata w of (version, author, date) \<Rightarrow>
           single_line version \<and> single_line author \<and> single_line date)
        \<and> (\<forall>k \<in> set (map fst req_to_tests). is_req_id (unicode w) k)
        \<and> (\<forall>(k, st) \<in> set req_statuses. single_line st)
        \<and> (\<forall>(k, ts) \<in> set req_to_tests. \<forall>t \<in> set ts. single_line t)
        \<and> (\<forall>(t, out) \<in> set test_outcomes. single_line out)
        \<longrightarrow> table_ids report = ids \<and> detail_ids report = ids)"
proof -
  let ?docs = "extract_requirement_ids_from_docs (unicode w) (srvp_file w) (srs_file w)"
  let ?ids = "sorted_list_of_set (set (map fst req_to_tests) \<union> ?docs)"
  let ?report = "build_markdown_report w req_statuses req_to_tests test_outcomes"
  have ids: "all_req_ids_sorted req_to_tests ?docs = ?ids"
    by (simp add: all_req_ids_sorted_def)
  have p: "set ?ids = set (map fst req_to_tests) \<union> ?docs" "distinct ?ids" "sorted ?ids"
    using finite_doc_ids [of "unicode w" "srvp_file w" "srs_file w"] by simp_all
  have k: "extract_req_ids_from_docstrings (unicode w) entries = Inr req_to_tests \<longrightarrow>
         set (map fst req_to_tests)
           = (\<Union>a \<in> set (concat (map (file_annotations (unicode w))
                  (filter (\<lambda>(name, f). glob_test name) entries))). set (snd a))
         \<and> (\<forall>k \<in> set (map fst req_to_tests). is_req_id (unicode w) k)"
    using association_keys [of "unicode w" entries req_to_tests]
      association_keys_sound [of "unicode w" entries req_to_tests]
    by blast
  have r: "?report = join nl
         (report_head (get_release_metadata w) req_statuses test_outcomes ?ids
          @ map (\<lambda>req_id. ''| '' @ req_id @ '' | '' @ status_of req_statuses req_id @ '' | ''
                            @ join '', '' (dict_get req_to_tests req_id []) @ '' |'') ?ids
          @ [[], ''## Details'', []]
          @ concat (map (\<lambda>req_id. (''### '' @ req_id)
                          # tl (detail_block req_statuses req_to_tests test_outcomes req_id)) ?ids))"
  proof -
    have "table_row req_statuses req_to_tests
            = (\<lambda>req_id. ''| '' @ req_id @ '' | '' @ status_of req_statuses req_id @ '' | ''
                            @ join '', '' (dict_get req_to_tests req_id []) @ '' |'')"
      by (simp add: fun_eq_iff table_row_def status_of_def)
    moreover have "detail_block req_statuses req_to_tests test_outcomes
            = (\<lambda>req_id. (''### '' @ req_id)
                          # tl (detail_block req_statuses req_to_tests test_outcomes req_id))"
      by (simp add: fun_eq_iff detail_block_def)
    ultimately show ?thesis
      by (simp only: build_markdown_report_def ids report_lines_def Let_def)
  qed
  have b: "(case get_release_metadata w of (version, author, date) \<Rightarrow>
           single_line version \<and> single_line author \<and> single_line date)
        \<and> (\<forall>k \<in> set (map fst req_to_tests). is_req_id (unicode w) k)
        \<and> (\<forall>(k, st) \<in> set req_statuses. single_line st)
        \<and> (\<forall>(k, ts) \<in> set req_to_tests. \<forall>t \<in> set ts. single_line t)
        \<and> (\<forall>(t, out) \<in> set test_outcomes. single_line out)
        \<longrightarrow> table_ids ?report = ?ids \<and> detail_ids ?report = ?ids"
  proof
    assume h: "(case get_release_metadata w of (version, author, date) \<Rightarrow>
           single_line version \<and> single_line author \<and> single_line date)
        \<and> (\<forall>k \<in> set (map fst req_to_tests). is_req_id (unicode w) k)
        \<and> (\<forall>(k, st) \<in> set req_statuses. single_line st)
        \<and> (\<forall>(k, ts) \<in> set req_to_tests. \<forall>t \<in> set ts. single_line t)
        \<and> (\<forall>(t, out) \<in> set test_outcomes. single_line out)"
    from h have h1: "case get_release_metadata w of (version, author, date) \<Rightarrow>
           single_line version \<and> single_line author \<and> single_line date"
      by (rule conjunct1)
    from h have h2: "\<forall>k \<in> set (map fst req_to_tests). is_req_id (unicode w) k"
      by (rule conjunct2 [THEN conjunct1])
    from h have h3: "\<forall>(k, st) \<in> set req_statuses. single_line st"
      by (rule conjunct2 [THEN conjunct2, THEN conjunct1])
    from h have h4: "\<forall>(k, ts) \<in> set req_to_tests. \<forall>t \<in> set ts. single_line t"
      by (rule conjunct2 [THEN conjunct2, THEN conjunct2, THEN conjunct1])
    from h have h5: "\<forall>(t, out) \<in> set test_outcomes. single_line out"
      by (rule conjunct2 [THEN conjunct2, THEN conjunct2, THEN conjunct2])
    from read_report_back [OF h1 h2 h3 h4 h5]
    show "table_ids ?report = ?ids \<and> detail_ids ?report = ?ids"
      by (simp only: ids)
  qed
  from p k r b show ?thesis
    unfolding Let_def by (intro conjI)
qed

lemma example_readable:
  "(case get_release_metadata example_world of (version, author, date) \<Rightarrow>
           single_line version \<and> single_line author \<and> single_line date)
   \<and> (\<forall>k \<in> set (map fst example_tests). is_req_id (unicode example_world) k)
   \<and> (\<forall>(k, st) \<in> set example_statuses. single_line st)
   \<and> (\<forall>(k, ts) \<in> set example_tests. \<forall>t \<in> set ts. single_line t)
   \<and> (\<forall>(t, out) \<in> set example_outcomes. single_line out)"
  using example_req_ids
  by (simp add: example_metadata(1) example_tests_def example_statuses_def example_outcomes_def)

theorem report_lists_exact_union_witness:
  "extract_req_ids_from_docstrings (unicode example_world) example_dir = Inr example_tests
   \<and> extract_requirement_ids_from_docs (unicode example_world) (srvp_file example_world)
         (srs_file example_world) = {''REQ-FUNC-LOG-010'', ''REQ-NFR-REL-001''}
   \<and> table_ids (build_markdown_report example_world example_statuses example_tests
         example_outcomes) = [''REQ-A-001'', ''REQ-FUNC-LOG-010'', ''REQ-NFR-REL-001'']
   \<and> detail_ids (build_markdown_report example_world example_statuses example_tests
         example_outcomes) = [''REQ-A-001'', ''REQ-FUNC-LOG-010'', ''REQ-NFR-REL-001'']"
proof -
  let ?report = "build_markdown_report example_world example_statuses example_tests
         example_outcomes"
  let ?ids = "sorted_list_of_set (set (map fst example_tests)
         \<union> extract_requirement_ids_from_docs (unicode example_world) (srvp_file example_world)
             (srs_file example_world))"
  from report_lists_exact_union [of example_world example_tests example_statuses
      example_outcomes example_dir] example_readable
  have "table_ids ?report = ?ids \<and> detail_ids ?report = ?ids"
    unfolding Let_def by blast
  then have "table_ids ?report = [''REQ-A-001'', ''REQ-FUNC-LOG-010'', ''REQ-NFR-REL-001'']
     \<and> detail_ids ?report = [''REQ-A-001'', ''REQ-FUNC-LOG-010'', ''REQ-NFR-REL-001'']"
    by (simp only: example_doc_ids(1) example_ids(1))
  with example_pipeline(2) [of "unicode example_world"] example_doc_ids(1) [of "unicode example_world"]
  show ?thesis
    by (intro conjI) simp_all
qed

section \<open>The pipeline\<close>

lemma example_run:
  "main example_world
     = (0, Some (build_markdown_report example_world example_statuses example_tests
                   example_outcomes))"
  "main (example_world\<lparr>RELEASE_AUTHOR := Some [CHR 0xFF]\<rparr>) = (1, Some [])"
  "main (example_world\<lparr>output_opens := False\<rparr>) = (1, Some ''old report'')"
  "main (example_world\<lparr>output_write_fails := Some ''---''\<rparr>) = (1, Some ''---'')"
  "main (example_world\<lparr>pytest_run_rc := 1\<rparr>) = (1, Some ''old report'')"
  "main (example_world\<lparr>pytest_version_rc := 1\<rparr>) = (1, Some ''old report'')"
  "main (example_world\<lparr>tests_dir := None\<rparr>) = (1, Some ''old report'')"
  "main (example_world\<lparr>report_json := FeedMissing\<rparr>) = (1, Some ''old report'')"
  "main (example_world\<lparr>report_json := FeedInvalid\<rparr>) = (1, Some ''old report'')"
  by code_simp+

text \<open>
  Claim C8. When the availability check or the test run fails, or the tests directory
  is absent, or the feed is missing or cannot be parsed, \<open>main\<close> returns 1 and the report
  file is what it was before the run. The exit status is 0 or 1. The report file is
  touched only by a run that has passed every step before the writing of the report:
  a run that ends with the file changed, or with status 0, has passed the availability
  check and the test run, has parsed the feed and has scanned the test files; and a run
  that returns 0 has written the report rendered from their results. (A run that
  passes these steps and then fails in writing the report returns 1; it leaves the
  file empty when the text cannot be encoded, and with what had been written when
  writing fails.)
\<close>

theorem fatal_failure_writes_no_report:
  "(\<not> check_pytest_available w \<or> tests_dir w = None \<or> \<not> run_tests w
      \<or> report_json w = FeedMissing \<or> report_json w = FeedInvalid
      \<longrightarrow> main w = (1, output_file w))
   \<and> (fst (main w) = 0 \<or> fst (main w) = 1)
   \<and> (snd (main w) \<noteq> output_file w \<or> fst (main w) = 0 \<longrightarrow>
        check_pytest_available w \<and> run_tests w \<and> output_opens w
        \<and> (\<exists>entries test_outcomes req_to_tests.
              tests_dir w = Some entries
              \<and> parse_test_report (report_json w) = Inr test_outcomes
              \<and> extract_req_ids_from_docstrings (unicode w) entries = Inr req_to_tests
              \<and> main w = (case write_text w (build_markdown_report w
                              (get_requirement_statuses test_outcomes req_to_tests)
                              req_to_tests test_outcomes) of
                            (None, out) \<Rightarrow> (0, out)
                          | (Some e, out) \<Rightarrow> (1, out))))
   \<and> (fst (main w) = 0 \<longrightarrow>
        output_write_fails w = None
        \<and> (\<exists>entries test_outcomes req_to_tests.
              tests_dir w = Some entries
              \<and> parse_test_report (report_json w) = Inr test_outcomes
              \<and> extract_req_ids_from_docstrings (unicode w) entries = Inr req_to_tests
              \<and> valid_utf8 (build_markdown_report w
                    (get_requirement_statuses test_outcomes req_to_tests)
                    req_to_tests test_outcomes)
              \<and> snd (main w) = Some (build_markdown_report w
                    (get_requirement_statuses test_outcomes req_to_tests)
                    req_to_tests test_outcomes)))"
  by (auto simp: main_def write_markdown_report_def write_text_def Let_def
      split: option.splits sum.splits if_splits)

theorem fatal_failure_writes_no_report_witness:
  "\<not> run_tests (example_world\<lparr>pytest_run_rc := 1\<rparr>)
   \<and> main (example_world\<lparr>pytest_run_rc := 1\<rparr>) = (1, Some ''old report'')
   \<and> main (example_world\<lparr>pytest_version_rc := 1\<rparr>) = (1, Some ''old report'')
   \<and> main (example_world\<lparr>tests_dir := None\<rparr>) = (1, Some ''old report'')
   \<and> main (example_world\<lparr>report_json := FeedMissing\<rparr>) = (1, Some ''old report'')
   \<and> main (example_world\<lparr>report_json := FeedInvalid\<rparr>) = (1, Some ''old report'')
   \<and> main example_world
        = (0, Some (build_markdown_report example_world example_statuses example_tests
                      example_outcomes))
   \<and> run_tests example_world \<and> check_pytest_available example_world
   \<and> output_opens example_world
   \<and> main (example_world\<lparr>RELEASE_AUTHOR := Some [CHR 0xFF]\<rparr>) = (1, Some [])
   \<and> run_tests (example_world\<lparr>RELEASE_AUTHOR := Some [CHR 0xFF]\<rparr>)"
  using fatal_failure_writes_no_report [of "example_world\<lparr>pytest_run_rc := 1\<rparr>"]
    fatal_failure_writes_no_report [of "example_world\<lparr>pytest_version_rc := 1\<rparr>"]
    fatal_failure_writes_no_report [of "example_world\<lparr>tests_dir := None\<rparr>"]
    fatal_failure_writes_no_report [of "example_world\<lparr>report_json := FeedMissing\<rparr>"]
    fatal_failure_writes_no_report [of "example_world\<lparr>report_json := FeedInvalid\<rparr>"]
    fatal_failure_writes_no_report [of example_world]
    fatal_failure_writes_no_report [of "example_world\<lparr>RELEASE_AUTHOR := Some [CHR 0xFF]\<rparr>"]
    example_run(1,2)
  by (simp add: run_tests_def check_pytest_available_def example_world_def)

end
